theory Spec2Isabelle
  imports Main "HOL-Library.Multiset"
begin

section \<open>The relational store\<close>

text \<open>
  The backend keeps its state in relational tables reached through an object-relational
  mapper. Every table is a list of rows in insertion order; a row is a record with the
  columns of its CREATE TABLE statement in the migration (the timestamp columns are left
  out: no controller reads them). Row identifiers are opaque texts generated by the store;
  they are modelled as natural numbers drawn from a counter kept beside the tables.
\<close>

type_synonym ident = nat

datatype role = SUPERADMIN | SCHOOL_ADMIN | TEACHER

record school =
  sch_id :: ident
  sch_name :: string
  sch_code :: string
  sch_isActive :: bool

record user =
  u_id :: ident
  u_name :: string
  u_email :: string
  u_phone :: "string option"
  u_password :: string
  u_role :: role
  u_schoolId :: "ident option"
  u_tutorId :: "ident option"

record tutor =
  t_id :: ident
  t_name :: string
  t_email :: string
  t_phone :: string
  t_schoolId :: ident
  t_isActive :: bool

record grade =
  g_id :: ident
  g_name :: string
  g_schoolId :: ident
  g_order :: int
  g_isActive :: bool

record section_row =
  s_id :: ident
  s_name :: string
  s_gradeId :: ident
  s_classTutorId :: "ident option"
  s_isActive :: bool

record sectionSubject =
  ss_id :: ident
  ss_name :: string
  ss_sectionId :: ident
  ss_isActive :: bool

record tutorSubjectAssignment =
  a_id :: ident
  a_tutorId :: ident
  a_sectionSubjectId :: ident
  a_isActive :: bool

text \<open>An audit row; the free-form metadata column is not modelled.\<close>

record auditLog =
  al_action :: string
  al_actorId :: ident
  al_actorRole :: role
  al_actorEmail :: string
  al_entity :: string
  al_entityId :: ident

record db =
  schools :: "school list"
  users :: "user list"
  tutors :: "tutor list"
  grades :: "grade list"
  sections :: "section_row list"
  sectionSubjects :: "sectionSubject list"
  assignments :: "tutorSubjectAssignment list"
  auditLogs :: "auditLog list"
  nextId :: ident

text \<open>
  The errors the store raises: a unique index violated (P2002), a foreign key without its
  target (P2003), an update or delete of a row that is not there (P2025), a number that
  its column cannot hold (P2020).
\<close>

datatype dberror = P2002 | P2003 | P2025 | P2020

text \<open>The identity attached to a request by the authentication middleware.\<close>

record actor =
  ac_userId :: ident
  ac_role :: role
  ac_email :: string

definition logAudit :: "actor \<Rightarrow> string \<Rightarrow> string \<Rightarrow> ident \<Rightarrow> db \<Rightarrow> db" where
  "logAudit who action entity entityId d =
     d\<lparr>auditLogs := auditLogs d @
        [\<lparr>al_action = action, al_actorId = ac_userId who, al_actorRole = ac_role who,
          al_actorEmail = ac_email who, al_entity = entity, al_entityId = entityId\<rparr>]\<rparr>"

subsection \<open>Inserts, with the unique indexes and foreign keys of the migration\<close>

definition sectionSubject_create :: "string \<Rightarrow> ident \<Rightarrow> db \<Rightarrow> dberror + db \<times> sectionSubject" where
  "sectionSubject_create nm sid d =
     (if \<not> list_ex (\<lambda>s. s_id s = sid) (sections d) then Inl P2003
      else if list_ex (\<lambda>x. ss_sectionId x = sid \<and> ss_name x = nm) (sectionSubjects d) then Inl P2002
      else let row = \<lparr>ss_id = nextId d, ss_name = nm, ss_sectionId = sid, ss_isActive = True\<rparr>
           in Inr (d\<lparr>sectionSubjects := sectionSubjects d @ [row], nextId := Suc (nextId d)\<rparr>, row))"

definition tutorSubjectAssignment_create :: "ident \<Rightarrow> ident \<Rightarrow> db \<Rightarrow> dberror + db \<times> tutorSubjectAssignment" where
  "tutorSubjectAssignment_create tid ssid d =
     (if \<not> list_ex (\<lambda>t. t_id t = tid) (tutors d) \<or> \<not> list_ex (\<lambda>x. ss_id x = ssid) (sectionSubjects d)
      then Inl P2003
      else if list_ex (\<lambda>x. a_tutorId x = tid \<and> a_sectionSubjectId x = ssid) (assignments d) then Inl P2002
      else let row = \<lparr>a_id = nextId d, a_tutorId = tid, a_sectionSubjectId = ssid, a_isActive = True\<rparr>
           in Inr (d\<lparr>assignments := assignments d @ [row], nextId := Suc (nextId d)\<rparr>, row))"

subsection \<open>Updates by primary key\<close>

definition tutorSubjectAssignment_setActive :: "ident \<Rightarrow> bool \<Rightarrow> db \<Rightarrow> dberror + db" where
  "tutorSubjectAssignment_setActive i b d =
     (if \<not> list_ex (\<lambda>x. a_id x = i) (assignments d) then Inl P2025
      else Inr (d\<lparr>assignments := map (\<lambda>x. if a_id x = i then x\<lparr>a_isActive := b\<rparr> else x) (assignments d)\<rparr>))"

definition sectionSubject_setActive :: "ident \<Rightarrow> bool \<Rightarrow> db \<Rightarrow> dberror + db" where
  "sectionSubject_setActive i b d =
     (if \<not> list_ex (\<lambda>x. ss_id x = i) (sectionSubjects d) then Inl P2025
      else Inr (d\<lparr>sectionSubjects := map (\<lambda>x. if ss_id x = i then x\<lparr>ss_isActive := b\<rparr> else x) (sectionSubjects d)\<rparr>))"

definition section_setClassTutor :: "ident \<Rightarrow> ident option \<Rightarrow> db \<Rightarrow> dberror + db" where
  "section_setClassTutor i ct d =
     (if \<not> list_ex (\<lambda>x. s_id x = i) (sections d) then Inl P2025
      else if (case ct of None \<Rightarrow> False | Some t \<Rightarrow> \<not> list_ex (\<lambda>x. t_id x = t) (tutors d)) then Inl P2003
      else Inr (d\<lparr>sections := map (\<lambda>x. if s_id x = i then x\<lparr>s_classTutorId := ct\<rparr> else x) (sections d)\<rparr>))"

section \<open>Assignment controller\<close>

text \<open>
  The repository holds two revisions of this controller. The definitions below follow the
  later one, which the routes of the application serve: it records the subjects it skips,
  reactivates an inactive assignment row, and refuses a section whose class tutor is
  another tutor. Lookups by \<open>findFirst\<close> and \<open>findUnique\<close> are rendered by \<open>find\<close>, the first
  matching row in table order; under the unique indexes of the migration at most one row
  matches a lookup by tutor and subject, or by section and subject name.
\<close>

subsection \<open>The key of one entry of the assignments map\<close>

text \<open>
  A key such as \<open>Grade 1-A\<close> is matched against the pattern \<open>^(.+)-([A-Z])$\<close>. The pattern
  is anchored at both ends and its last two positions are fixed, so a key matches exactly
  when its last character is an upper-case letter, the one before is a hyphen, and what
  precedes is not empty and holds no line terminator (which the dot does not match).
  Characters are the 8-bit characters of HOL.
\<close>

definition isUpper :: "char \<Rightarrow> bool" where
  "isUpper c = (65 \<le> (of_char c :: nat) \<and> (of_char c :: nat) \<le> 90)"

definition isLineTerminator :: "char \<Rightarrow> bool" where
  "isLineTerminator c = ((of_char c :: nat) = 10 \<or> (of_char c :: nat) = 13)"

definition parseKey :: "string \<Rightarrow> (string \<times> string) option" where
  "parseKey key =
     (case rev key of
        c # h # r \<Rightarrow>
          (if isUpper c \<and> h = CHR ''-'' \<and> r \<noteq> [] \<and> \<not> list_ex isLineTerminator r
           then Some (rev r, [c]) else None)
      | _ \<Rightarrow> None)"

subsection \<open>Loops whose body may throw\<close>

text \<open>
  A \<open>for ... of\<close> loop inside a transaction: the body runs on each element in turn and the
  first exception leaves the loop (and, uncaught, the transaction).
\<close>

fun forEach :: "('a \<Rightarrow> 's \<Rightarrow> 'e + 's) \<Rightarrow> 'a list \<Rightarrow> 's \<Rightarrow> 'e + 's" where
  "forEach f [] st = Inr st"
| "forEach f (x # xs) st = (case f x st of Inl e \<Rightarrow> Inl e | Inr st' \<Rightarrow> forEach f xs st')"

subsection \<open>smartAssignTutor\<close>

record createdItem =
  ci_id :: ident
  ci_grade :: string
  ci_section :: string
  ci_subject :: string
  ci_reactivated :: bool

record skippedItem =
  sk_grade :: string
  sk_section :: string
  sk_subject :: string
  sk_reason :: string

text \<open>The three arrays the transaction callback fills.\<close>

record assignAcc =
  createdAssignments :: "createdItem list"
  skippedAssignments :: "skippedItem list"
  errors :: "string list"

text \<open>
  The request body. \<open>ar_tutorId\<close> is \<open>None\<close> when the field is missing or empty;
  \<open>ar_assignments\<close> holds the entries of the assignments object in the order in which
  they are enumerated (no entry when the object is missing).
\<close>

record assignRequest =
  ar_tutorId :: "ident option"
  ar_assignments :: "(string \<times> string list) list"
  ar_classGrade :: "string option"
  ar_classSection :: "string option"

definition skipped :: "string \<Rightarrow> string \<Rightarrow> string \<Rightarrow> skippedItem" where
  "skipped gradeName sectionName subjectName =
     \<lparr>sk_grade = gradeName, sk_section = sectionName, sk_subject = subjectName,
      sk_reason = ''Already assigned''\<rparr>"

text \<open>The body of the inner loop: one subject name under a resolved section.\<close>

definition assignSubject ::
  "ident \<Rightarrow> section_row \<Rightarrow> string \<Rightarrow> string \<Rightarrow> string \<Rightarrow> db \<times> assignAcc \<Rightarrow> dberror + db \<times> assignAcc" where
  "assignSubject tutorId sec gradeName sectionName subjectName st =
     (case st of (d, acc) \<Rightarrow>
      (case (case find (\<lambda>x. ss_sectionId x = s_id sec \<and> ss_name x = subjectName \<and> ss_isActive x)
                    (sectionSubjects d) of
               Some found \<Rightarrow> Inr (d, found)
             | None \<Rightarrow> sectionSubject_create subjectName (s_id sec) d) of
         Inl e \<Rightarrow> Inl e
       | Inr (d1, sectionSubject) \<Rightarrow>
          (case find (\<lambda>x. a_tutorId x = tutorId \<and> a_sectionSubjectId x = ss_id sectionSubject)
                  (assignments d1) of
             Some existingAssignment \<Rightarrow>
               (if a_isActive existingAssignment
                then Inr (d1, acc\<lparr>skippedAssignments := skippedAssignments acc @
                                   [skipped gradeName sectionName subjectName]\<rparr>)
                else (case tutorSubjectAssignment_setActive (a_id existingAssignment) True d1 of
                        Inl e \<Rightarrow> Inl e
                      | Inr d2 \<Rightarrow>
                          Inr (d2, acc\<lparr>createdAssignments := createdAssignments acc @
                                 [\<lparr>ci_id = a_id existingAssignment, ci_grade = gradeName,
                                   ci_section = sectionName, ci_subject = subjectName,
                                   ci_reactivated = True\<rparr>]\<rparr>)))
           | None \<Rightarrow>
               (case tutorSubjectAssignment_create tutorId (ss_id sectionSubject) d1 of
                  Inl e \<Rightarrow> Inl e
                | Inr (d2, assignment) \<Rightarrow>
                    Inr (d2, acc\<lparr>createdAssignments := createdAssignments acc @
                           [\<lparr>ci_id = a_id assignment, ci_grade = gradeName,
                             ci_section = sectionName, ci_subject = subjectName,
                             ci_reactivated = False\<rparr>]\<rparr>)))))"

definition invalidKeyMessage :: "string \<Rightarrow> string" where
  \<open>invalidKeyMessage key = ''Invalid key format: '' @ key @ ''. Expected format: "Grade X-A"''\<close>

definition findGrade :: "ident \<Rightarrow> string \<Rightarrow> db \<Rightarrow> grade option" where
  "findGrade schoolId gradeName d =
     find (\<lambda>g. g_schoolId g = schoolId \<and> g_name g = gradeName \<and> g_isActive g) (grades d)"

definition findSection :: "ident \<Rightarrow> string \<Rightarrow> db \<Rightarrow> section_row option" where
  "findSection gradeId sectionName d =
     find (\<lambda>s. s_gradeId s = gradeId \<and> s_name s = sectionName \<and> s_isActive s) (sections d)"

text \<open>The body of the outer loop: one entry of the assignments map.\<close>

definition assignEntry ::
  "ident \<Rightarrow> ident \<Rightarrow> string \<times> string list \<Rightarrow> db \<times> assignAcc \<Rightarrow> dberror + db \<times> assignAcc" where
  "assignEntry schoolId tutorId entry st =
     (case entry of (key, subjectNames) \<Rightarrow>
      (case st of (d, acc) \<Rightarrow>
       (case parseKey key of
          None \<Rightarrow> Inr (d, acc\<lparr>errors := errors acc @ [invalidKeyMessage key]\<rparr>)
        | Some (gradeName, sectionName) \<Rightarrow>
           (case findGrade schoolId gradeName d of
              None \<Rightarrow> Inr (d, acc\<lparr>errors := errors acc @ [''Grade not found: '' @ gradeName]\<rparr>)
            | Some grade \<Rightarrow>
               (case findSection (g_id grade) sectionName d of
                  None \<Rightarrow>
                    Inr (d, acc\<lparr>errors := errors acc @
                           [''Section '' @ sectionName @ '' not found in '' @ gradeName]\<rparr>)
                | Some sec \<Rightarrow>
                    forEach (assignSubject tutorId sec gradeName sectionName) subjectNames (d, acc))))))"

text \<open>
  The second part of the transaction: the class tutor. A field counts as supplied when it
  is present and not the empty text.
\<close>

definition classTutorName :: "ident \<Rightarrow> db \<Rightarrow> string" where
  "classTutorName i d =
     (case find (\<lambda>t. t_id t = i) (tutors d) of
        None \<Rightarrow> ''another tutor''
      | Some t \<Rightarrow> if t_name t = [] then ''another tutor'' else t_name t)"

definition assignClassTutorPart ::
  "ident \<Rightarrow> ident \<Rightarrow> string option \<Rightarrow> string option \<Rightarrow> db \<times> string list
     \<Rightarrow> dberror + db \<times> (string \<times> string) option \<times> string list" where
  "assignClassTutorPart schoolId tutorId classGrade classSection st =
     (case st of (d, errs) \<Rightarrow>
      (case (classGrade, classSection) of
         (Some cg, Some cs) \<Rightarrow>
           (if cg = [] \<or> cs = [] then Inr (d, None, errs)
            else
              (case findGrade schoolId cg d of
                 None \<Rightarrow>
                   Inr (d, None, errs @ [''Grade '' @ cg @ '' not found for class tutor assignment''])
               | Some grade \<Rightarrow>
                  (case findSection (g_id grade) cs d of
                     None \<Rightarrow>
                       Inr (d, None, errs @
                         [''Section '' @ cs @ '' not found in '' @ cg @ '' for class tutor assignment''])
                   | Some sec \<Rightarrow>
                      (case s_classTutorId sec of
                         Some other \<Rightarrow>
                           (if other \<noteq> tutorId
                            then Inr (d, None, errs @
                                   [''Section '' @ cg @ ''-'' @ cs @ '' already has '' @
                                    classTutorName other d @ '' as class tutor''])
                            else (case section_setClassTutor (s_id sec) (Some tutorId) d of
                                    Inl e \<Rightarrow> Inl e
                                  | Inr d1 \<Rightarrow> Inr (d1, Some (cg, cs), errs)))
                       | None \<Rightarrow>
                           (case section_setClassTutor (s_id sec) (Some tutorId) d of
                              Inl e \<Rightarrow> Inl e
                            | Inr d1 \<Rightarrow> Inr (d1, Some (cg, cs), errs))))))
       | _ \<Rightarrow> Inr (d, None, errs)))"

record assignResult =
  res_created :: "createdItem list"
  res_skipped :: "skippedItem list"
  res_classTutor :: "(string \<times> string) option"
  res_errors :: "string list"

definition emptyAcc :: assignAcc where
  "emptyAcc = \<lparr>createdAssignments = [], skippedAssignments = [], errors = []\<rparr>"

text \<open>The transaction callback: it commits the returned tables, or throws and commits nothing.\<close>

definition smartAssignTransaction :: "ident \<Rightarrow> ident \<Rightarrow> assignRequest \<Rightarrow> db \<Rightarrow> dberror + db \<times> assignResult" where
  "smartAssignTransaction schoolId tutorId req d =
     (case forEach (assignEntry schoolId tutorId) (ar_assignments req) (d, emptyAcc) of
        Inl e \<Rightarrow> Inl e
      | Inr (d1, acc) \<Rightarrow>
         (case assignClassTutorPart schoolId tutorId (ar_classGrade req) (ar_classSection req)
                 (d1, errors acc) of
            Inl e \<Rightarrow> Inl e
          | Inr (d2, ct, errs) \<Rightarrow>
              Inr (d2, \<lparr>res_created = createdAssignments acc, res_skipped = skippedAssignments acc,
                        res_classTutor = ct, res_errors = errs\<rparr>)))"

text \<open>
  The response: a status and a body. An empty skipped or errors array is sent as
  \<open>undefined\<close>, here \<open>None\<close>.
\<close>

datatype assignBody =
  Message string
| Assigned ident string "createdItem list" "skippedItem list option"
    "(string \<times> string) option" "string list option"

definition orUndefined :: "'a list \<Rightarrow> 'a list option" where
  "orUndefined xs = (if xs = [] then None else Some xs)"

definition smartAssignTutor :: "actor \<Rightarrow> ident \<Rightarrow> assignRequest \<Rightarrow> db \<Rightarrow> (nat \<times> assignBody) \<times> db" where
  "smartAssignTutor who schoolId req d =
     (case ar_tutorId req of
        None \<Rightarrow> ((400, Message ''tutorId is required''), d)
      | Some tutorId \<Rightarrow>
         (case find (\<lambda>t. t_id t = tutorId \<and> t_schoolId t = schoolId) (tutors d) of
            None \<Rightarrow> ((404, Message ''Tutor not found in this school''), d)
          | Some tutor \<Rightarrow>
             (case smartAssignTransaction schoolId tutorId req d of
                Inl e \<Rightarrow>
                  (if e = P2002
                   then ((409, Message ''This tutor is already assigned to one or more of these subjects''), d)
                   else ((500, Message ''Failed to assign tutor''), d))
              | Inr (d1, result) \<Rightarrow>
                  ((201, Assigned tutorId (t_name tutor) (res_created result)
                           (orUndefined (res_skipped result)) (res_classTutor result)
                           (orUndefined (res_errors result))),
                   logAudit who ''ASSIGN_TUTOR'' ''TutorAssignment'' tutorId d1))))"

subsection \<open>updateTutorAssignments and deleteAllTutorAssignments\<close>

text \<open>
  The first transaction of the replace-all handler: every assignment row of the tutor is
  deleted and every section that has the tutor as class tutor loses it. Neither statement
  can fail.
\<close>

definition clearTutorAssignments :: "ident \<Rightarrow> db \<Rightarrow> db" where
  "clearTutorAssignments tutorId d =
     d\<lparr>assignments := filter (\<lambda>a. a_tutorId a \<noteq> tutorId) (assignments d),
       sections := map (\<lambda>s. if s_classTutorId s = Some tutorId then s\<lparr>s_classTutorId := None\<rparr> else s)
                     (sections d)\<rparr>"

definition updateTutorAssignments :: "actor \<Rightarrow> ident \<Rightarrow> assignRequest \<Rightarrow> db \<Rightarrow> (nat \<times> assignBody) \<times> db" where
  "updateTutorAssignments who schoolId req d =
     (case ar_tutorId req of
        None \<Rightarrow> ((400, Message ''tutorId is required''), d)
      | Some tutorId \<Rightarrow>
         (case find (\<lambda>t. t_id t = tutorId \<and> t_schoolId t = schoolId) (tutors d) of
            None \<Rightarrow> ((404, Message ''Tutor not found in this school''), d)
          | Some tutor \<Rightarrow> smartAssignTutor who schoolId req (clearTutorAssignments tutorId d)))"

definition deleteAllTutorAssignments :: "actor \<Rightarrow> ident \<Rightarrow> db \<Rightarrow> (nat \<times> string) \<times> db" where
  "deleteAllTutorAssignments who tutorId d =
     (case find (\<lambda>t. t_id t = tutorId) (tutors d) of
        None \<Rightarrow> ((404, ''Tutor not found''), d)
      | Some tutor \<Rightarrow>
          ((200, ''All assignments removed successfully''),
           logAudit who ''DELETE_ALL_TUTOR_ASSIGNMENTS'' ''TutorAssignment'' tutorId
             (clearTutorAssignments tutorId d)))"

subsection \<open>assignSubjectToTutor and removeAssignment\<close>

datatype subjectBody =
  SubjectMessage string
| Reactivated tutorSubjectAssignment
| SubjectAssigned ident ident string string string string

text \<open>
  The handler reads the subject together with its section and the section's grade. Both
  relations are mandatory; a subject whose section or grade is missing makes the mapper
  throw, which the handler answers with status 500.
\<close>

definition assignSubjectToTutor ::
  "actor \<Rightarrow> ident \<Rightarrow> ident option \<Rightarrow> ident option \<Rightarrow> db \<Rightarrow> (nat \<times> subjectBody) \<times> db" where
  "assignSubjectToTutor who schoolId tutorIdField sectionSubjectIdField d =
     (case (tutorIdField, sectionSubjectIdField) of
        (Some tutorId, Some sectionSubjectId) \<Rightarrow>
          (case find (\<lambda>t. t_id t = tutorId \<and> t_schoolId t = schoolId) (tutors d) of
             None \<Rightarrow> ((404, SubjectMessage ''Tutor not found in this school''), d)
           | Some tutor \<Rightarrow>
              (case find (\<lambda>x. ss_id x = sectionSubjectId) (sectionSubjects d) of
                 None \<Rightarrow> ((404, SubjectMessage ''Subject not found''), d)
               | Some sectionSubject \<Rightarrow>
                  (case find (\<lambda>s. s_id s = ss_sectionId sectionSubject) (sections d) of
                     None \<Rightarrow> ((500, SubjectMessage ''Failed to assign subject''), d)
                   | Some sec \<Rightarrow>
                      (case find (\<lambda>g. g_id g = s_gradeId sec) (grades d) of
                         None \<Rightarrow> ((500, SubjectMessage ''Failed to assign subject''), d)
                       | Some grade \<Rightarrow>
                          (case find (\<lambda>x. a_tutorId x = tutorId \<and> a_sectionSubjectId x = sectionSubjectId)
                                  (assignments d) of
                             Some existingAssignment \<Rightarrow>
                               (if a_isActive existingAssignment
                                then ((409, SubjectMessage
                                         (t_name tutor @ '' is already assigned to teach '' @
                                          ss_name sectionSubject @ '' in '' @ g_name grade @ ''-'' @
                                          s_name sec)), d)
                                else (case tutorSubjectAssignment_setActive (a_id existingAssignment) True d of
                                        Inl e \<Rightarrow>
                                          (if e = P2002
                                           then ((409, SubjectMessage
                                                   ''This tutor is already assigned to this subject''), d)
                                           else ((500, SubjectMessage ''Failed to assign subject''), d))
                                      | Inr d1 \<Rightarrow>
                                          ((200, Reactivated (existingAssignment\<lparr>a_isActive := True\<rparr>)), d1)))
                           | None \<Rightarrow>
                               (case tutorSubjectAssignment_create tutorId sectionSubjectId d of
                                  Inl e \<Rightarrow>
                                    (if e = P2002
                                     then ((409, SubjectMessage
                                             ''This tutor is already assigned to this subject''), d)
                                     else ((500, SubjectMessage ''Failed to assign subject''), d))
                                | Inr (d1, assignment) \<Rightarrow>
                                    ((201, SubjectAssigned (a_id assignment) tutorId (t_name tutor)
                                             (ss_name sectionSubject) (g_name grade) (s_name sec)),
                                     logAudit who ''ASSIGN_SUBJECT_TO_TUTOR'' ''TutorSubjectAssignment''
                                       (a_id assignment) d1)))))))
      | _ \<Rightarrow> ((400, SubjectMessage ''tutorId and sectionSubjectId are required''), d))"

definition removeAssignment :: "ident \<Rightarrow> db \<Rightarrow> (nat \<times> string) \<times> db" where
  "removeAssignment assignmentId d =
     (case find (\<lambda>a. a_id a = assignmentId) (assignments d) of
        None \<Rightarrow> ((404, ''Assignment not found''), d)
      | Some assignment \<Rightarrow>
          ((200, ''Assignment removed successfully''),
           d\<lparr>assignments := filter (\<lambda>a. a_id a \<noteq> assignmentId) (assignments d)\<rparr>))"

section \<open>Tutor controller\<close>

text \<open>
  A request field of type text counts as given when it is present and not empty. The
  temporary password and its hash come from a random source and a hashing library; they
  are parameters of the model.
\<close>

definition tutor_create :: "string \<Rightarrow> string \<Rightarrow> string \<Rightarrow> ident \<Rightarrow> db \<Rightarrow> dberror + db \<times> tutor" where
  "tutor_create name email phone schoolId d =
     (if \<not> list_ex (\<lambda>s. sch_id s = schoolId) (schools d) then Inl P2003
      else if list_ex (\<lambda>t. t_email t = email) (tutors d) then Inl P2002
      else let row = \<lparr>t_id = nextId d, t_name = name, t_email = email, t_phone = phone,
                       t_schoolId = schoolId, t_isActive = True\<rparr>
           in Inr (d\<lparr>tutors := tutors d @ [row], nextId := Suc (nextId d)\<rparr>, row))"

definition user_create ::
  "string \<Rightarrow> string \<Rightarrow> string option \<Rightarrow> string \<Rightarrow> role \<Rightarrow> ident option \<Rightarrow> ident option \<Rightarrow> db
     \<Rightarrow> dberror + db \<times> user" where
  "user_create name email phone password r schoolId tutorId d =
     (if (case schoolId of None \<Rightarrow> False | Some i \<Rightarrow> \<not> list_ex (\<lambda>s. sch_id s = i) (schools d)) \<or>
         (case tutorId of None \<Rightarrow> False | Some i \<Rightarrow> \<not> list_ex (\<lambda>t. t_id t = i) (tutors d))
      then Inl P2003
      else if list_ex (\<lambda>u. u_email u = email) (users d) \<or>
              (case tutorId of None \<Rightarrow> False | Some i \<Rightarrow> list_ex (\<lambda>u. u_tutorId u = Some i) (users d))
      then Inl P2002
      else let row = \<lparr>u_id = nextId d, u_name = name, u_email = email, u_phone = phone,
                       u_password = password, u_role = r, u_schoolId = schoolId, u_tutorId = tutorId\<rparr>
           in Inr (d\<lparr>users := users d @ [row], nextId := Suc (nextId d)\<rparr>, row))"

record tutorRequest =
  tr_name :: "string option"
  tr_email :: "string option"
  tr_phone :: "string option"

datatype tutorBody =
  TutorMessage string
| TutorCreated ident string string string string

definition createTutorTransaction ::
  "string \<Rightarrow> string \<Rightarrow> string \<Rightarrow> ident \<Rightarrow> string \<Rightarrow> db \<Rightarrow> dberror + db \<times> tutor \<times> user" where
  "createTutorTransaction name email phone schoolId hashedPassword d =
     (case tutor_create name email phone schoolId d of
        Inl e \<Rightarrow> Inl e
      | Inr (d1, tutor) \<Rightarrow>
         (case user_create name email (Some phone) hashedPassword TEACHER (Some schoolId)
                 (Some (t_id tutor)) d1 of
            Inl e \<Rightarrow> Inl e
          | Inr (d2, user) \<Rightarrow> Inr (d2, tutor, user)))"

definition createTutor ::
  "actor \<Rightarrow> ident \<Rightarrow> tutorRequest \<Rightarrow> string \<Rightarrow> string \<Rightarrow> db \<Rightarrow> (nat \<times> tutorBody) \<times> db" where
  "createTutor who schoolId req tempPassword hashedPassword d =
     (case (tr_name req, tr_email req, tr_phone req) of
        (Some name, Some email, Some phone) \<Rightarrow>
          (if name = [] \<or> email = [] \<or> phone = []
           then ((400, TutorMessage ''Missing required fields: name, email, phone''), d)
           else if find (\<lambda>s. sch_id s = schoolId) (schools d) = None
           then ((404, TutorMessage ''School not found''), d)
           else if find (\<lambda>t. t_email t = email) (tutors d) \<noteq> None
           then ((409, TutorMessage ''Tutor email already exists''), d)
           else if find (\<lambda>u. u_email u = email) (users d) \<noteq> None
           then ((409, TutorMessage ''User email already exists''), d)
           else (case createTutorTransaction name email phone schoolId hashedPassword d of
                   Inl e \<Rightarrow> ((500, TutorMessage ''Failed to create tutor''), d)
                 | Inr (d1, tutor, user) \<Rightarrow>
                     ((201, TutorCreated (t_id tutor) (t_name tutor) (t_email tutor) (t_phone tutor)
                              tempPassword),
                      logAudit who ''CREATE_TUTOR'' ''Tutor'' (t_id tutor) d1)))
      | _ \<Rightarrow> ((400, TutorMessage ''Missing required fields: name, email, phone''), d))"

text \<open>
  Deleting a tutor row. The foreign keys of the migration decide what goes with it: the
  tutor's assignment rows and user account are deleted (ON DELETE CASCADE), a section
  that has the tutor as class tutor loses it (ON DELETE SET NULL).
\<close>

definition tutor_delete :: "ident \<Rightarrow> db \<Rightarrow> dberror + db" where
  "tutor_delete tutorId d =
     (if \<not> list_ex (\<lambda>t. t_id t = tutorId) (tutors d) then Inl P2025
      else Inr (d\<lparr>tutors := filter (\<lambda>t. t_id t \<noteq> tutorId) (tutors d),
                  assignments := filter (\<lambda>a. a_tutorId a \<noteq> tutorId) (assignments d),
                  users := filter (\<lambda>u. u_tutorId u \<noteq> Some tutorId) (users d),
                  sections := map (\<lambda>s. if s_classTutorId s = Some tutorId
                                         then s\<lparr>s_classTutorId := None\<rparr> else s) (sections d)\<rparr>))"

text \<open>
  The refusal carries a message with the two counts and the flag \<open>hasAssignments\<close>; the
  body \<open>HasAssignments\<close> holds the two counts. \<open>force\<close> is the query parameter, absent or a
  text.
\<close>

datatype deleteBody =
  DeleteMessage string
| HasAssignments nat nat

definition deleteTutor :: "actor \<Rightarrow> ident \<Rightarrow> string option \<Rightarrow> db \<Rightarrow> (nat \<times> deleteBody) \<times> db" where
  "deleteTutor who tutorId force d =
     (case find (\<lambda>t. t_id t = tutorId) (tutors d) of
        None \<Rightarrow> ((404, DeleteMessage ''Tutor not found''), d)
      | Some tutor \<Rightarrow>
         (let subjectAssignments = length (filter (\<lambda>a. a_tutorId a = tutorId) (assignments d));
              classSections = length (filter (\<lambda>s. s_classTutorId s = Some tutorId) (sections d))
          in if (subjectAssignments > 0 \<or> classSections > 0) \<and> force \<noteq> Some ''true''
             then ((400, HasAssignments subjectAssignments classSections), d)
             else (case tutor_delete tutorId d of
                     Inl e \<Rightarrow> ((500, DeleteMessage ''Failed to delete tutor''), d)
                   | Inr d1 \<Rightarrow>
                       ((200, DeleteMessage ''Tutor deleted successfully''),
                        logAudit who ''DELETE_TUTOR'' ''Tutor'' tutorId d1))))"

section \<open>Grade controller\<close>

subsection \<open>createGrade\<close>

text \<open>
  The column \<open>order\<close> of a grade is a 32-bit INTEGER: an insert with a number outside its
  range is refused.
\<close>

definition grade_create :: "string \<Rightarrow> ident \<Rightarrow> int \<Rightarrow> db \<Rightarrow> dberror + db \<times> grade" where
  "grade_create name schoolId ord d =
     (if ord < - 2147483648 \<or> 2147483647 < ord then Inl P2020
      else if \<not> list_ex (\<lambda>s. sch_id s = schoolId) (schools d) then Inl P2003
      else if list_ex (\<lambda>g. g_schoolId g = schoolId \<and> g_name g = name) (grades d) then Inl P2002
      else let row = \<lparr>g_id = nextId d, g_name = name, g_schoolId = schoolId, g_order = ord,
                       g_isActive = True\<rparr>
           in Inr (d\<lparr>grades := grades d @ [row], nextId := Suc (nextId d)\<rparr>, row))"

definition section_create :: "string \<Rightarrow> ident \<Rightarrow> db \<Rightarrow> dberror + db \<times> section_row" where
  "section_create name gradeId d =
     (if \<not> list_ex (\<lambda>g. g_id g = gradeId) (grades d) then Inl P2003
      else if list_ex (\<lambda>s. s_gradeId s = gradeId \<and> s_name s = name) (sections d) then Inl P2002
      else let row = \<lparr>s_id = nextId d, s_name = name, s_gradeId = gradeId, s_classTutorId = None,
                       s_isActive = True\<rparr>
           in Inr (d\<lparr>sections := sections d @ [row], nextId := Suc (nextId d)\<rparr>, row))"

text \<open>
  One requested section: its name and, optionally, the names of its subjects. The request:
  \<open>gr_order\<close> is \<open>None\<close> when the field is missing or null.
\<close>

record sectionData =
  sd_name :: string
  sd_subjects :: "string list option"

record gradeRequest =
  gr_gradeName :: "string option"
  gr_order :: "int option"
  gr_sections :: "sectionData list option"

definition createSubject :: "ident \<Rightarrow> string \<Rightarrow> db \<times> sectionSubject list \<Rightarrow> dberror + db \<times> sectionSubject list" where
  "createSubject sectionId subjectName st =
     (case st of (d, acc) \<Rightarrow>
      (case sectionSubject_create subjectName sectionId d of
         Inl e \<Rightarrow> Inl e
       | Inr (d1, row) \<Rightarrow> Inr (d1, acc @ [row])))"

definition createSection ::
  "ident \<Rightarrow> sectionData \<Rightarrow> db \<times> (section_row \<times> sectionSubject list) list
     \<Rightarrow> dberror + db \<times> (section_row \<times> sectionSubject list) list" where
  "createSection gradeId sectionData st =
     (case st of (d, createdSections) \<Rightarrow>
      (case section_create (sd_name sectionData) gradeId d of
         Inl e \<Rightarrow> Inl e
       | Inr (d1, sec) \<Rightarrow>
          (case forEach (createSubject (s_id sec))
                  (case sd_subjects sectionData of None \<Rightarrow> [] | Some names \<Rightarrow> names) (d1, []) of
             Inl e \<Rightarrow> Inl e
           | Inr (d2, subjectRows) \<Rightarrow> Inr (d2, createdSections @ [(sec, subjectRows)]))))"

definition createGradeTransaction ::
  "string \<Rightarrow> ident \<Rightarrow> int \<Rightarrow> sectionData list \<Rightarrow> db
     \<Rightarrow> dberror + db \<times> grade \<times> (section_row \<times> sectionSubject list) list" where
  "createGradeTransaction gradeName schoolId gradeOrder secs d =
     (case grade_create gradeName schoolId gradeOrder d of
        Inl e \<Rightarrow> Inl e
      | Inr (d1, grade) \<Rightarrow>
         (case forEach (createSection (g_id grade)) secs (d1, []) of
            Inl e \<Rightarrow> Inl e
          | Inr (d2, createdSections) \<Rightarrow> Inr (d2, grade, createdSections)))"

datatype gradeBody =
  GradeMessage string
| GradeCreated grade "(section_row \<times> sectionSubject list) list"

text \<open>
  The order of a grade created without one. The handler that serves the grades route
  takes the number of the school's grades plus one.
\<close>

definition nextGradeOrder :: "ident \<Rightarrow> db \<Rightarrow> int" where
  "nextGradeOrder schoolId d = int (length (filter (\<lambda>g. g_schoolId g = schoolId) (grades d))) + 1"

definition createGrade :: "actor \<Rightarrow> ident \<Rightarrow> gradeRequest \<Rightarrow> db \<Rightarrow> (nat \<times> gradeBody) \<times> db" where
  "createGrade who schoolId req d =
     (case (gr_gradeName req, gr_sections req) of
        (Some gradeName, Some secs) \<Rightarrow>
          (if gradeName = [] \<or> secs = []
           then ((400, GradeMessage ''gradeName and at least one section are required''), d)
           else if find (\<lambda>g. g_schoolId g = schoolId \<and> g_name g = gradeName) (grades d) \<noteq> None
           then ((409, GradeMessage ''Grade already exists in this school''), d)
           else
             (let gradeOrder = (case gr_order req of Some ord \<Rightarrow> ord | None \<Rightarrow> nextGradeOrder schoolId d)
              in (case createGradeTransaction gradeName schoolId gradeOrder secs d of
                    Inl e \<Rightarrow> ((500, GradeMessage ''Failed to create grade''), d)
                  | Inr (d1, grade, createdSections) \<Rightarrow>
                      ((201, GradeCreated grade createdSections),
                       logAudit who ''CREATE_GRADE'' ''Grade'' (g_id grade) d1))))
      | _ \<Rightarrow> ((400, GradeMessage ''gradeName and at least one section are required''), d))"

text \<open>
  The earlier revision of the handler, kept in the repository beside the current one. It
  checks that the school exists, treats an order of zero like a missing one, and takes the
  largest order among the school's grades plus one (one when the school has no grade, or
  when that largest order is zero).
\<close>

definition maxGradeOrder :: "ident \<Rightarrow> db \<Rightarrow> int option" where
  "maxGradeOrder schoolId d =
     (case map g_order (filter (\<lambda>g. g_schoolId g = schoolId) (grades d)) of
        [] \<Rightarrow> None
      | x # xs \<Rightarrow> Some (fold max xs x))"

definition nextGradeOrder_max :: "ident \<Rightarrow> db \<Rightarrow> int" where
  "nextGradeOrder_max schoolId d =
     (case maxGradeOrder schoolId d of None \<Rightarrow> 0 | Some m \<Rightarrow> m) + 1"

definition createGrade_earlier :: "actor \<Rightarrow> ident \<Rightarrow> gradeRequest \<Rightarrow> db \<Rightarrow> (nat \<times> gradeBody) \<times> db" where
  "createGrade_earlier who schoolId req d =
     (case (gr_gradeName req, gr_sections req) of
        (Some gradeName, Some secs) \<Rightarrow>
          (if gradeName = [] \<or> secs = []
           then ((400, GradeMessage ''Missing required fields: gradeName and sections array''), d)
           else if find (\<lambda>s. sch_id s = schoolId) (schools d) = None
           then ((404, GradeMessage ''School not found''), d)
           else if find (\<lambda>g. g_schoolId g = schoolId \<and> g_name g = gradeName) (grades d) \<noteq> None
           then ((409, GradeMessage ''Grade already exists in this school''), d)
           else
             (let gradeOrder =
                    (case gr_order req of
                       Some ord \<Rightarrow> if ord = 0 then nextGradeOrder_max schoolId d else ord
                     | None \<Rightarrow> nextGradeOrder_max schoolId d)
              in (case createGradeTransaction gradeName schoolId gradeOrder secs d of
                    Inl e \<Rightarrow> ((500, GradeMessage ''Failed to create grade''), d)
                  | Inr (d1, grade, createdSections) \<Rightarrow>
                      ((201, GradeCreated grade createdSections),
                       logAudit who ''CREATE_GRADE'' ''Grade'' (g_id grade) d1))))
      | _ \<Rightarrow> ((400, GradeMessage ''Missing required fields: gradeName and sections array''), d))"

subsection \<open>updateSectionSubjects and addSubjectToSection\<close>

text \<open>One pass of the loop over the names to add: reactivate a deactivated row, or insert.\<close>

definition addOrReactivate :: "ident \<Rightarrow> string \<Rightarrow> db \<times> sectionSubject list \<Rightarrow> dberror + db \<times> sectionSubject list" where
  "addOrReactivate sectionId subjectName st =
     (case st of (d, addedSubjects) \<Rightarrow>
      (case find (\<lambda>x. ss_sectionId x = sectionId \<and> ss_name x = subjectName \<and> \<not> ss_isActive x)
              (sectionSubjects d) of
         Some existingInactive \<Rightarrow>
           (case sectionSubject_setActive (ss_id existingInactive) True d of
              Inl e \<Rightarrow> Inl e
            | Inr d1 \<Rightarrow> Inr (d1, addedSubjects @ [existingInactive\<lparr>ss_isActive := True\<rparr>]))
       | None \<Rightarrow>
           (case sectionSubject_create subjectName sectionId d of
              Inl e \<Rightarrow> Inl e
            | Inr (d1, newSubject) \<Rightarrow> Inr (d1, addedSubjects @ [newSubject]))))"

definition deactivate :: "sectionSubject \<Rightarrow> db \<Rightarrow> dberror + db" where
  "deactivate subject d = sectionSubject_setActive (ss_id subject) False d"

definition updateSectionSubjectsTransaction ::
  "ident \<Rightarrow> sectionSubject list \<Rightarrow> string list \<Rightarrow> db
     \<Rightarrow> dberror + db \<times> sectionSubject list \<times> sectionSubject list" where
  "updateSectionSubjectsTransaction sectionId currentSubjects newNames d =
     (let currentNames = map ss_name currentSubjects;
          toAdd = filter (\<lambda>name. name \<notin> set currentNames) newNames;
          toDeactivate = filter (\<lambda>s. ss_name s \<notin> set newNames) currentSubjects
      in (case forEach (addOrReactivate sectionId) toAdd (d, []) of
            Inl e \<Rightarrow> Inl e
          | Inr (d1, addedSubjects) \<Rightarrow>
             (case forEach deactivate toDeactivate d1 of
                Inl e \<Rightarrow> Inl e
              | Inr d2 \<Rightarrow> Inr (d2, addedSubjects, toDeactivate))))"

text \<open>
  The response lists the names added and removed. (It also lists the section's active
  subjects sorted by name, which the model leaves out.) The section is read with its
  grade; a section whose grade is missing makes the mapper throw.
\<close>

datatype subjectsBody =
  SubjectsMessage string
| SubjectsUpdated ident string "string list" "string list"

definition updateSectionSubjects ::
  "actor \<Rightarrow> ident \<Rightarrow> string list option \<Rightarrow> db \<Rightarrow> (nat \<times> subjectsBody) \<times> db" where
  "updateSectionSubjects who sectionId subjects d =
     (case subjects of
        None \<Rightarrow> ((400, SubjectsMessage ''subjects array is required''), d)
      | Some newNames \<Rightarrow>
         (case find (\<lambda>s. s_id s = sectionId) (sections d) of
            None \<Rightarrow> ((404, SubjectsMessage ''Section not found''), d)
          | Some sec \<Rightarrow>
             (if find (\<lambda>g. g_id g = s_gradeId sec) (grades d) = None
              then ((500, SubjectsMessage ''Failed to update section subjects''), d)
              else
                (case updateSectionSubjectsTransaction sectionId
                        (filter (\<lambda>x. ss_sectionId x = sectionId \<and> ss_isActive x) (sectionSubjects d))
                        newNames d of
                   Inl e \<Rightarrow> ((500, SubjectsMessage ''Failed to update section subjects''), d)
                 | Inr (d1, added, removed) \<Rightarrow>
                     ((200, SubjectsUpdated (s_id sec) (s_name sec) (map ss_name added)
                              (map ss_name removed)),
                      logAudit who ''UPDATE_SECTION_SUBJECTS'' ''Section'' sectionId d1)))))"

datatype subjectRowBody =
  SubjectRowMessage string
| SubjectRow sectionSubject

definition addSubjectToSection :: "ident \<Rightarrow> string option \<Rightarrow> db \<Rightarrow> (nat \<times> subjectRowBody) \<times> db" where
  "addSubjectToSection sectionId nameField d =
     (case nameField of
        None \<Rightarrow> ((400, SubjectRowMessage ''Subject name is required''), d)
      | Some name \<Rightarrow>
         (if name = [] then ((400, SubjectRowMessage ''Subject name is required''), d)
          else if find (\<lambda>s. s_id s = sectionId) (sections d) = None
          then ((404, SubjectRowMessage ''Section not found''), d)
          else
            (case find (\<lambda>x. ss_sectionId x = sectionId \<and> ss_name x = name) (sectionSubjects d) of
               Some existingSubject \<Rightarrow>
                 (if ss_isActive existingSubject
                  then ((409, SubjectRowMessage ''Subject already exists in this section''), d)
                  else (case sectionSubject_setActive (ss_id existingSubject) True d of
                          Inl e \<Rightarrow> ((500, SubjectRowMessage ''Failed to add subject''), d)
                        | Inr d1 \<Rightarrow> ((200, SubjectRow (existingSubject\<lparr>ss_isActive := True\<rparr>)), d1)))
             | None \<Rightarrow>
                 (case sectionSubject_create name sectionId d of
                    Inl e \<Rightarrow> ((500, SubjectRowMessage ''Failed to add subject''), d)
                  | Inr (d1, sectionSubject) \<Rightarrow> ((201, SubjectRow sectionSubject), d1)))))"

section \<open>Example data\<close>

text \<open>
  A small school in the shape of the end-to-end scenario of the specification: school
  Lincoln (code LIN01), Grade 1 with sections A and B, tutors Jane and Omar. Omar is the
  class tutor of section B; Jane has a deactivated assignment to Maths in section A; the
  subject Art of section A is deactivated.
\<close>

definition demoActor :: actor where
  "demoActor = \<lparr>ac_userId = 1, ac_role = SCHOOL_ADMIN, ac_email = ''admin@lincoln.example''\<rparr>"

definition demoDb :: db where
  "demoDb =
     \<lparr>schools = [\<lparr>sch_id = 10, sch_name = ''Lincoln'', sch_code = ''LIN01'', sch_isActive = True\<rparr>],
      users = [\<lparr>u_id = 1, u_name = ''Admin'', u_email = ''admin@lincoln.example'', u_phone = None,
                u_password = ''hash0'', u_role = SCHOOL_ADMIN, u_schoolId = Some 10, u_tutorId = None\<rparr>,
               \<lparr>u_id = 21, u_name = ''Jane'', u_email = ''jane@lincoln.example'', u_phone = Some ''555-0100'',
                u_password = ''hash1'', u_role = TEACHER, u_schoolId = Some 10, u_tutorId = Some 20\<rparr>,
               \<lparr>u_id = 23, u_name = ''Omar'', u_email = ''omar@lincoln.example'', u_phone = Some ''555-0101'',
                u_password = ''hash2'', u_role = TEACHER, u_schoolId = Some 10, u_tutorId = Some 22\<rparr>],
      tutors = [\<lparr>t_id = 20, t_name = ''Jane'', t_email = ''jane@lincoln.example'', t_phone = ''555-0100'',
                 t_schoolId = 10, t_isActive = True\<rparr>,
                \<lparr>t_id = 22, t_name = ''Omar'', t_email = ''omar@lincoln.example'', t_phone = ''555-0101'',
                 t_schoolId = 10, t_isActive = True\<rparr>],
      grades = [\<lparr>g_id = 30, g_name = ''Grade 1'', g_schoolId = 10, g_order = 1, g_isActive = True\<rparr>],
      sections = [\<lparr>s_id = 40, s_name = ''A'', s_gradeId = 30, s_classTutorId = None, s_isActive = True\<rparr>,
                  \<lparr>s_id = 41, s_name = ''B'', s_gradeId = 30, s_classTutorId = Some 22, s_isActive = True\<rparr>],
      sectionSubjects =
        [\<lparr>ss_id = 50, ss_name = ''English'', ss_sectionId = 40, ss_isActive = True\<rparr>,
         \<lparr>ss_id = 51, ss_name = ''Maths'', ss_sectionId = 40, ss_isActive = True\<rparr>,
         \<lparr>ss_id = 52, ss_name = ''Art'', ss_sectionId = 40, ss_isActive = False\<rparr>],
      assignments = [\<lparr>a_id = 60, a_tutorId = 20, a_sectionSubjectId = 51, a_isActive = False\<rparr>],
      auditLogs = [],
      nextId = 100\<rparr>"

definition demoRequest :: assignRequest where
  "demoRequest =
     \<lparr>ar_tutorId = Some 20,
      ar_assignments = [(''Grade 1-A'', [''English'']), (''Grade 1'', [''Maths'']), (''Grade 1-A'', [''Maths''])],
      ar_classGrade = None, ar_classSection = None\<rparr>"

text \<open>
  A request for Jane over both sections: two subjects of section A, a subject that section
  B does not have yet, and section A as her class.
\<close>

definition twoSectionsRequest :: assignRequest where
  "twoSectionsRequest =
     \<lparr>ar_tutorId = Some 20,
      ar_assignments = [(''Grade 1-A'', [''English'', ''Maths'']), (''Grade 1-B'', [''Science''])],
      ar_classGrade = Some ''Grade 1'', ar_classSection = Some ''A''\<rparr>"

definition artRequest :: assignRequest where
  "artRequest =
     \<lparr>ar_tutorId = Some 20, ar_assignments = [(''Grade 1-A'', [''Art''])],
      ar_classGrade = None, ar_classSection = None\<rparr>"

definition classRequest :: "string \<Rightarrow> assignRequest" where
  "classRequest sectionName =
     \<lparr>ar_tutorId = Some 20, ar_assignments = [],
      ar_classGrade = Some ''Grade 1'', ar_classSection = Some sectionName\<rparr>"

definition tutorRequestOf :: "string \<Rightarrow> string \<Rightarrow> string option \<Rightarrow> tutorRequest" where
  "tutorRequestOf name email phone = \<lparr>tr_name = Some name, tr_email = Some email, tr_phone = phone\<rparr>"

text \<open>
  The school after Grade 2 was deleted: Grade 1 has order 1 and Grade 3 has order 3.
\<close>

definition gapDb :: db where
  "gapDb = demoDb\<lparr>grades := grades demoDb @
     [\<lparr>g_id = 32, g_name = ''Grade 3'', g_schoolId = 10, g_order = 3, g_isActive = True\<rparr>]\<rparr>"

definition grade4Request :: gradeRequest where
  "grade4Request =
     \<lparr>gr_gradeName = Some ''Grade 4'', gr_order = None,
      gr_sections = Some [\<lparr>sd_name = ''A'', sd_subjects = None\<rparr>]\<rparr>"

text \<open>The example school after a request that keeps only English in section A.\<close>

definition afterRemoval :: db where
  "afterRemoval = snd (updateSectionSubjects demoActor 40 (Some [''English'']) demoDb)"

text \<open>
  The example school without any assignment, the example school after Jane was assigned
  English and Maths in section A, and a request whose only key is malformed.
\<close>

definition freshDb :: db where
  "freshDb = demoDb\<lparr>assignments := []\<rparr>"

definition assignedDb :: db where
  "assignedDb = snd (smartAssignTutor demoActor 10 demoRequest demoDb)"

definition badKeyRequest :: assignRequest where
  "badKeyRequest =
     \<lparr>ar_tutorId = Some 20, ar_assignments = [(''Grade 1'', [''English''])],
      ar_classGrade = None, ar_classSection = None\<rparr>"

section \<open>Notions used in the properties\<close>

text \<open>
  \<open>prefixErrors pre r\<close>: the outcome \<open>r\<close> of a run with the messages \<open>pre\<close> put in front of
  its errors. \<open>grown xs zs\<close>: the assignment table \<open>zs\<close> keeps every row of \<open>xs\<close> at its place,
  possibly reactivated, and may have more rows behind them; \<open>grows d d'\<close>: from \<open>d\<close> to \<open>d'\<close>
  only the subject table got new rows and the assignment table has grown.
  \<open>settled t sid nm d\<close>: section \<open>sid\<close> has an active subject \<open>nm\<close> and tutor \<open>t\<close> an active
  assignment to it. \<open>resolve sch key d\<close>: the grade name, section name and section row a
  key of the assignments map leads to, if any.
\<close>

definition prefixErrors :: "string list \<Rightarrow> dberror + db \<times> assignAcc \<Rightarrow> dberror + db \<times> assignAcc" where
  "prefixErrors pre r = (case r of Inl e \<Rightarrow> Inl e | Inr (d, acc) \<Rightarrow> Inr (d, acc\<lparr>errors := pre @ errors acc\<rparr>))"

fun grown :: "tutorSubjectAssignment list \<Rightarrow> tutorSubjectAssignment list \<Rightarrow> bool" where
  "grown [] zs = True"
| "grown (x # xs) [] = False"
| "grown (x # xs) (z # zs) = ((z = x \<or> z = x\<lparr>a_isActive := True\<rparr>) \<and> grown xs zs)"

definition grows :: "db \<Rightarrow> db \<Rightarrow> bool" where
  "grows d d' =
     (schools d' = schools d \<and> users d' = users d \<and> tutors d' = tutors d \<and>
      grades d' = grades d \<and> sections d' = sections d \<and> auditLogs d' = auditLogs d \<and>
      (\<exists>ys. sectionSubjects d' = sectionSubjects d @ ys) \<and>
      grown (assignments d) (assignments d'))"

definition settled :: "ident \<Rightarrow> ident \<Rightarrow> string \<Rightarrow> db \<Rightarrow> bool" where
  "settled t sid nm d =
     (case find (\<lambda>x. ss_sectionId x = sid \<and> ss_name x = nm \<and> ss_isActive x) (sectionSubjects d) of
        None \<Rightarrow> False
      | Some found \<Rightarrow>
         (case find (\<lambda>x. a_tutorId x = t \<and> a_sectionSubjectId x = ss_id found) (assignments d) of
            None \<Rightarrow> False
          | Some a \<Rightarrow> a_isActive a))"

definition resolve :: "ident \<Rightarrow> string \<Rightarrow> db \<Rightarrow> (string \<times> string \<times> ident) option" where
  "resolve sch key d =
     (case parseKey key of
        None \<Rightarrow> None
      | Some (g, s) \<Rightarrow>
         (case findGrade sch g d of
            None \<Rightarrow> None
          | Some grade \<Rightarrow>
             (case findSection (g_id grade) s d of
                None \<Rightarrow> None
              | Some sec \<Rightarrow> Some (g, s, s_id sec))))"

definition allSkipped :: "ident \<Rightarrow> db \<Rightarrow> (string \<times> string list) list \<Rightarrow> skippedItem list" where
  "allSkipped sch d es =
     concat (map (\<lambda>(key, nms). case resolve sch key d of
                                  None \<Rightarrow> []
                                | Some (g, s, sid) \<Rightarrow> map (skipped g s) nms) es)"

definition allSettled :: "ident \<Rightarrow> ident \<Rightarrow> db \<Rightarrow> db \<Rightarrow> (string \<times> string list) list \<Rightarrow> bool" where
  "allSettled sch t d0 d es =
     (\<forall>(key, nms)\<in>set es. \<forall>g s sid. resolve sch key d0 = Some (g, s, sid) \<longrightarrow>
        (\<forall>nm\<in>set nms. settled t sid nm d))"

text \<open>\<open>retag i t secs\<close>: the sections table after section \<open>i\<close> got class tutor \<open>t\<close>.\<close>

definition retag :: "ident \<Rightarrow> ident \<Rightarrow> section_row list \<Rightarrow> section_row list" where
  "retag i t secs = map (\<lambda>x. if s_id x = i then x\<lparr>s_classTutorId := Some t\<rparr> else x) secs"

text \<open>\<open>missing field\<close>: the request field is absent or the empty text.\<close>

definition missing :: "string option \<Rightarrow> bool" where
  "missing field = (field = None \<or> field = Some [])"

text \<open>
  \<open>emailTaken\<close>: a tutor row or a user row has the e-mail address. \<open>newTutor\<close> and
  \<open>newTeacher\<close> are the two rows a successful request inserts: the tutor, and the user
  account of role TEACHER that points to it.
\<close>

definition emailTaken :: "string \<Rightarrow> db \<Rightarrow> bool" where
  "emailTaken email d =
     (list_ex (\<lambda>t. t_email t = email) (tutors d) \<or> list_ex (\<lambda>u. u_email u = email) (users d))"

definition newTutor :: "string \<Rightarrow> string \<Rightarrow> string \<Rightarrow> ident \<Rightarrow> db \<Rightarrow> tutor" where
  "newTutor name email phone schoolId d =
     \<lparr>t_id = nextId d, t_name = name, t_email = email, t_phone = phone, t_schoolId = schoolId,
      t_isActive = True\<rparr>"

definition newTeacher :: "string \<Rightarrow> string \<Rightarrow> string \<Rightarrow> ident \<Rightarrow> string \<Rightarrow> db \<Rightarrow> user" where
  "newTeacher name email phone schoolId hashedPassword d =
     \<lparr>u_id = Suc (nextId d), u_name = name, u_email = email, u_phone = Some phone,
      u_password = hashedPassword, u_role = TEACHER, u_schoolId = Some schoolId,
      u_tutorId = Some (nextId d)\<rparr>"

text \<open>
  \<open>rowsOf sid nm d\<close>: the subject rows of section \<open>sid\<close> named \<open>nm\<close>. \<open>frame d d'\<close>: the
  step from \<open>d\<close> to \<open>d'\<close> touches the subject table only and removes no row of it.
\<close>

definition rowsOf :: "ident \<Rightarrow> string \<Rightarrow> db \<Rightarrow> sectionSubject list" where
  "rowsOf sid nm d = filter (\<lambda>x. ss_sectionId x = sid \<and> ss_name x = nm) (sectionSubjects d)"

definition frame :: "db \<Rightarrow> db \<Rightarrow> bool" where
  "frame d d' =
     (schools d' = schools d \<and> users d' = users d \<and> tutors d' = tutors d \<and> grades d' = grades d \<and>
      sections d' = sections d \<and> assignments d' = assignments d \<and> auditLogs d' = auditLogs d \<and>
      ss_id ` set (sectionSubjects d) \<subseteq> ss_id ` set (sectionSubjects d'))"

definition activate :: "ident \<Rightarrow> sectionSubject \<Rightarrow> sectionSubject" where
  "activate i x = (if ss_id x = i then x\<lparr>ss_isActive := True\<rparr> else x)"

definition deactivated :: "ident set \<Rightarrow> sectionSubject \<Rightarrow> sectionSubject" where
  "deactivated ids x = (if ss_id x \<in> ids then x\<lparr>ss_isActive := False\<rparr> else x)"

text \<open>\<open>uniqueSubjects\<close>: the unique index on section and name holds.\<close>

definition uniqueSubjects :: "db \<Rightarrow> bool" where
  "uniqueSubjects d = distinct (map (\<lambda>x. (ss_sectionId x, ss_name x)) (sectionSubjects d))"

text \<open>\<open>uniqueAssignments\<close>: no two assignment rows link the same tutor to the same subject.\<close>

definition uniqueAssignments :: "db \<Rightarrow> bool" where
  "uniqueAssignments d = distinct (map (\<lambda>a. (a_tutorId a, a_sectionSubjectId a)) (assignments d))"

definition emptyDb :: db where
  "emptyDb = \<lparr>schools = [], users = [], tutors = [], grades = [], sections = [], sectionSubjects = [],
              assignments = [], auditLogs = [], nextId = 0\<rparr>"

text \<open>
  The states the handlers can bring the store into, starting from the empty store. The
  handlers that insert or update assignment rows are the first three; the next three
  delete assignment rows. The last rule stands for every other handler (creating and
  deleting schools, grades, sections, subjects and tutors, and so on): it may change the
  other tables at will, and of the assignment table it may only delete rows, as the
  cascading foreign keys do.
\<close>

inductive reachable :: "db \<Rightarrow> bool" where
  initial: "reachable emptyDb"
| smartAssign: "reachable d \<Longrightarrow> reachable (snd (smartAssignTutor who schoolId req d))"
| updateAssignments: "reachable d \<Longrightarrow> reachable (snd (updateTutorAssignments who schoolId req d))"
| assignSubject: "reachable d \<Longrightarrow> reachable (snd (assignSubjectToTutor who schoolId t i d))"
| deleteAll: "reachable d \<Longrightarrow> reachable (snd (deleteAllTutorAssignments who t d))"
| remove: "reachable d \<Longrightarrow> reachable (snd (removeAssignment i d))"
| deleteTutorStep: "reachable d \<Longrightarrow> reachable (snd (deleteTutor who t force d))"
| other: "reachable d \<Longrightarrow> assignments d' = filter keep (assignments d) \<Longrightarrow> reachable d'"

section \<open>Properties of smartAssignTutor\<close>

subsection \<open>Errors collected so far do not influence the processing\<close>

lemma forEach_append:
  "forEach f (xs @ ys) st = (case forEach f xs st of Inl e \<Rightarrow> Inl e | Inr st' \<Rightarrow> forEach f ys st')"
  by (induction xs arbitrary: st) (auto split: sum.splits)

lemma assignSubject_prefix:
  "assignSubject t sec g s n (d, acc\<lparr>errors := pre @ errors acc\<rparr>) = prefixErrors pre (assignSubject t sec g s n (d, acc))"
  by (simp add: assignSubject_def prefixErrors_def split: option.splits sum.splits prod.splits)

lemma forEach_prefix:
  assumes "\<And>x d acc. f x (d, acc\<lparr>errors := pre @ errors acc\<rparr>) = prefixErrors pre (f x (d, acc))"
  shows "forEach f xs (d, acc\<lparr>errors := pre @ errors acc\<rparr>) = prefixErrors pre (forEach f xs (d, acc))"
proof (induction xs arbitrary: d acc)
  case Nil
  show ?case by (simp add: prefixErrors_def)
next
  case (Cons x xs)
  show ?case
  proof (cases "f x (d, acc)")
    case (Inl e)
    then show ?thesis by (simp add: assms prefixErrors_def)
  next
    case (Inr st)
    obtain d' acc' where st: "st = (d', acc')" by (cases st)
    show ?thesis using Cons.IH [of d' acc'] by (simp add: assms Inr st prefixErrors_def)
  qed
qed

lemma assignEntry_prefix:
  "assignEntry sch t e (d, acc\<lparr>errors := pre @ errors acc\<rparr>) = prefixErrors pre (assignEntry sch t e (d, acc))"
proof -
  obtain key subs where e: "e = (key, subs)" by (cases e)
  show ?thesis
    unfolding e assignEntry_def
    by (simp add: forEach_prefix [OF assignSubject_prefix] split: option.splits prod.splits)
      (simp add: prefixErrors_def)
qed

lemma assignEntries_prefix:
  "forEach (assignEntry sch t) es (d, acc\<lparr>errors := pre @ errors acc\<rparr>) =
     prefixErrors pre (forEach (assignEntry sch t) es (d, acc))"
  by (rule forEach_prefix) (rule assignEntry_prefix)

lemma assignEntries_from:
  "forEach (assignEntry sch t) es (d, acc\<lparr>errors := pre\<rparr>) =
     prefixErrors pre (forEach (assignEntry sch t) es (d, acc\<lparr>errors := []\<rparr>))"
  using assignEntries_prefix [where acc = "acc\<lparr>errors := []\<rparr>" and pre = pre] by simp

lemma assignClassTutorPart_prefix:
  "assignClassTutorPart sch t cg cs (d, pre @ errs) =
     (case assignClassTutorPart sch t cg cs (d, errs) of
        Inl e \<Rightarrow> Inl e
      | Inr (d', ct, es) \<Rightarrow> Inr (d', ct, pre @ es))"
  by (simp add: assignClassTutorPart_def split: option.splits sum.splits)

lemma assignClassTutorPart_from:
  "assignClassTutorPart sch t cg cs (d, pre) =
     (case assignClassTutorPart sch t cg cs (d, []) of
        Inl e \<Rightarrow> Inl e
      | Inr (d', ct, es) \<Rightarrow> Inr (d', ct, pre @ es))"
  using assignClassTutorPart_prefix [where pre = pre and errs = "[]"] by simp

lemma orUndefined_list: "(case orUndefined xs of None \<Rightarrow> [] | Some es \<Rightarrow> es) = xs"
  by (simp add: orUndefined_def)

lemma orUndefined_Cons: "orUndefined (xs @ y # ys) = Some (xs @ y # ys)"
  by (simp add: orUndefined_def)

lemma assignEntry_malformed:
  "parseKey key = None \<Longrightarrow>
   assignEntry sch t (key, subs) (d, acc) = Inr (d, acc\<lparr>errors := errors acc @ [invalidKeyMessage key]\<rparr>)"
  by (simp add: assignEntry_def)

lemma smartAssignTransaction_malformed:
  assumes "parseKey key = None"
  shows "case smartAssignTransaction sch t (req\<lparr>ar_assignments := before @ after\<rparr>) d of
           Inl e \<Rightarrow> smartAssignTransaction sch t (req\<lparr>ar_assignments := before @ (key, subs) # after\<rparr>) d = Inl e
         | Inr (d', r) \<Rightarrow>
             (\<exists>e1 e2. res_errors r = e1 @ e2 \<and>
                smartAssignTransaction sch t (req\<lparr>ar_assignments := before @ (key, subs) # after\<rparr>) d =
                  Inr (d', r\<lparr>res_errors := e1 @ invalidKeyMessage key # e2\<rparr>))"
proof (cases "forEach (assignEntry sch t) before (d, emptyAcc)")
  case (Inl e)
  then show ?thesis by (simp add: smartAssignTransaction_def forEach_append)
next
  case (Inr st1)
  obtain d1 a1 where st1: "st1 = (d1, a1)" by (cases st1)
  let ?m = "invalidKeyMessage key"
  let ?rest = "forEach (assignEntry sch t) after (d1, a1\<lparr>errors := []\<rparr>)"
  have run0: "forEach (assignEntry sch t) (before @ after) (d, emptyAcc) = prefixErrors (errors a1) ?rest"
    using assignEntries_from [where es = after and d = d1 and acc = a1 and pre = "errors a1"] by (simp add: forEach_append Inr st1)
  have run1: "forEach (assignEntry sch t) (before @ (key, subs) # after) (d, emptyAcc) =
      prefixErrors (errors a1 @ [?m]) ?rest"
    using assignEntries_from [where es = after and d = d1 and acc = a1 and pre = "errors a1 @ [?m]"]
    by (simp add: forEach_append Inr st1 assignEntry_malformed [OF assms])
  show ?thesis
  proof (cases ?rest)
    case (Inl e)
    then show ?thesis by (simp add: smartAssignTransaction_def run0 run1 prefixErrors_def)
  next
    case (Inr st2)
    obtain d2 a2 where st2: "st2 = (d2, a2)" by (cases st2)
    let ?cg = "ar_classGrade req" and ?cs = "ar_classSection req"
    show ?thesis
    proof (cases "assignClassTutorPart sch t ?cg ?cs (d2, [])")
      case (Inl e)
      then show ?thesis
        using assignClassTutorPart_from [where d = d2 and pre = "errors a1 @ errors a2"]
          assignClassTutorPart_from [where d = d2 and pre = "errors a1 @ ?m # errors a2"]
        by (simp add: smartAssignTransaction_def run0 run1 prefixErrors_def Inr st2)
    next
      case (Inr r3)
      obtain d3 ct es where r3: "r3 = (d3, ct, es)" by (cases r3)
      show ?thesis
        using assignClassTutorPart_from [where d = d2 and pre = "errors a1 @ errors a2"]
          assignClassTutorPart_from [where d = d2 and pre = "errors a1 @ ?m # errors a2"]
        apply (simp add: smartAssignTransaction_def run0 run1 prefixErrors_def Inr st2 r3 \<open>?rest = Inr st2\<close>)
        apply (rule exI [of _ "errors a1"])
        apply (rule exI [of _ "errors a2 @ es"])
        apply simp
        done
    qed
  qed
qed


subsection \<open>Malformed keys\<close>

text \<open>
  Claim C7. A key of the assignments map that does not match \<open>^(.+)-([A-Z])$\<close> makes the
  loop body append the per-key error and go on with the next entry, touching nothing
  else. For the request as a whole: the response and the stored state are those of the
  same request without that entry, except that the errors array holds the error of the
  malformed key at its place. In particular the request fails exactly when it fails
  without the entry, and the well-formed entries are processed as they are without it.
\<close>

theorem smartAssignTutor_malformed_key:
  assumes "parseKey key = None"
  shows "assignEntry schoolId tutorId (key, subjectNames) (d, acc) =
           Inr (d, acc\<lparr>errors := errors acc @ [invalidKeyMessage key]\<rparr>) \<and>
         (case smartAssignTutor who schoolId (req\<lparr>ar_assignments := before @ after\<rparr>) d0 of
            ((status, Assigned i n cr sk ct errs), d') \<Rightarrow>
              (\<exists>e1 e2. (case errs of None \<Rightarrow> [] | Some es \<Rightarrow> es) = e1 @ e2 \<and>
                 smartAssignTutor who schoolId
                     (req\<lparr>ar_assignments := before @ (key, subjectNames) # after\<rparr>) d0 =
                   ((status, Assigned i n cr sk ct (Some (e1 @ invalidKeyMessage key # e2))), d'))
          | other \<Rightarrow>
              smartAssignTutor who schoolId
                  (req\<lparr>ar_assignments := before @ (key, subjectNames) # after\<rparr>) d0 = other)"
proof
  show "assignEntry schoolId tutorId (key, subjectNames) (d, acc) =
           Inr (d, acc\<lparr>errors := errors acc @ [invalidKeyMessage key]\<rparr>)"
    by (rule assignEntry_malformed [OF assms])
next
  let ?r0 = "req\<lparr>ar_assignments := before @ after\<rparr>"
  let ?r1 = "req\<lparr>ar_assignments := before @ (key, subjectNames) # after\<rparr>"
  let ?goal = "case smartAssignTutor who schoolId ?r0 d0 of
            ((status, Assigned i n cr sk ct errs), d') \<Rightarrow>
              (\<exists>e1 e2. (case errs of None \<Rightarrow> [] | Some es \<Rightarrow> es) = e1 @ e2 \<and>
                 smartAssignTutor who schoolId ?r1 d0 =
                   ((status, Assigned i n cr sk ct (Some (e1 @ invalidKeyMessage key # e2))), d'))
          | other \<Rightarrow> smartAssignTutor who schoolId ?r1 d0 = other"
  show ?goal
  proof (cases "ar_tutorId req")
    case None
    then show ?thesis by (simp add: smartAssignTutor_def)
  next
    case (Some t)
    show ?thesis
    proof (cases "find (\<lambda>x. t_id x = t \<and> t_schoolId x = schoolId) (tutors d0)")
      case None
      then show ?thesis by (simp add: smartAssignTutor_def Some)
    next
      case tutor: (Some tu)
      note tx = smartAssignTransaction_malformed [OF assms, where sch = schoolId and t = t and req = req
          and before = before and after = after and d = d0 and subs = subjectNames]
      show ?thesis
      proof (cases "smartAssignTransaction schoolId t ?r0 d0")
        case (Inl e)
        then show ?thesis using tx by (simp add: smartAssignTutor_def Some tutor)
      next
        case (Inr p)
        obtain d1 r where p: "p = (d1, r)" by (cases p)
        from tx obtain e1 e2 where e: "res_errors r = e1 @ e2"
          and run: "smartAssignTransaction schoolId t ?r1 d0 =
             Inr (d1, r\<lparr>res_errors := e1 @ invalidKeyMessage key # e2\<rparr>)"
          by (auto simp: Inr p)
        show ?thesis
          apply (simp add: smartAssignTutor_def Some tutor Inr p run orUndefined_list orUndefined_Cons)
          apply (rule exI [of _ e1])
          apply (rule exI [of _ e2])
          apply (simp add: e)
          done
      qed
    qed
  qed
qed


theorem smartAssignTutor_malformed_key_witness:
  "parseKey ''Grade 1'' = None \<and>
   fst (smartAssignTutor demoActor 10 demoRequest demoDb) =
     (201, Assigned 20 ''Jane''
        [\<lparr>ci_id = 100, ci_grade = ''Grade 1'', ci_section = ''A'', ci_subject = ''English'',
          ci_reactivated = False\<rparr>,
         \<lparr>ci_id = 60, ci_grade = ''Grade 1'', ci_section = ''A'', ci_subject = ''Maths'',
          ci_reactivated = True\<rparr>]
        None None (Some [invalidKeyMessage ''Grade 1'']))"
proof -
  have bad: "parseKey ''Grade 1'' = None"
    by (simp add: parseKey_def isUpper_def)
  have short: "fst (smartAssignTutor demoActor 10
      (demoRequest\<lparr>ar_assignments := [(''Grade 1-A'', [''English''])] @ [(''Grade 1-A'', [''Maths''])]\<rparr>) demoDb) =
     (201, Assigned 20 ''Jane''
        [\<lparr>ci_id = 100, ci_grade = ''Grade 1'', ci_section = ''A'', ci_subject = ''English'',
          ci_reactivated = False\<rparr>,
         \<lparr>ci_id = 60, ci_grade = ''Grade 1'', ci_section = ''A'', ci_subject = ''Maths'',
          ci_reactivated = True\<rparr>]
        None None None)"
    by code_simp
  have req: "demoRequest\<lparr>ar_assignments := [(''Grade 1-A'', [''English''])] @ (''Grade 1'', [''Maths'']) # [(''Grade 1-A'', [''Maths''])]\<rparr> = demoRequest"
    by (simp add: demoRequest_def)
  obtain resp d' where run: "smartAssignTutor demoActor 10
      (demoRequest\<lparr>ar_assignments := [(''Grade 1-A'', [''English''])] @ [(''Grade 1-A'', [''Maths''])]\<rparr>) demoDb = (resp, d')"
    by (cases "smartAssignTutor demoActor 10
      (demoRequest\<lparr>ar_assignments := [(''Grade 1-A'', [''English''])] @ [(''Grade 1-A'', [''Maths''])]\<rparr>) demoDb")
  from smartAssignTutor_malformed_key [OF bad, where who = demoActor and schoolId = 10
        and req = demoRequest and ?before = "[(''Grade 1-A'', [''English''])]"
        and after = "[(''Grade 1-A'', [''Maths''])]" and subjectNames = "[''Maths'']" and ?d0.0 = demoDb]
  have "\<exists>e1 e2. [] = e1 @ e2 \<and> smartAssignTutor demoActor 10 demoRequest demoDb =
      ((201, Assigned 20 ''Jane''
        [\<lparr>ci_id = 100, ci_grade = ''Grade 1'', ci_section = ''A'', ci_subject = ''English'',
          ci_reactivated = False\<rparr>,
         \<lparr>ci_id = 60, ci_grade = ''Grade 1'', ci_section = ''A'', ci_subject = ''Maths'',
          ci_reactivated = True\<rparr>]
        None None (Some (e1 @ invalidKeyMessage ''Grade 1'' # e2))), d')"
    using short unfolding req run by simp
  then show ?thesis using bad by auto
qed


subsection \<open>What the subject part of the transaction leaves behind\<close>

text \<open>
  The subject part only appends subject rows and assignment rows and switches assignment
  rows to active. \<open>grown xs zs\<close>: the table \<open>zs\<close> is \<open>xs\<close> with some rows activated and
  rows appended. \<open>settled t sid nm d\<close>: in \<open>d\<close> the first active subject row named \<open>nm\<close> of
  section \<open>sid\<close> exists and the first assignment row of tutor \<open>t\<close> to it is active, which is
  what the loop body looks at.
\<close>

lemma find_append_Some: "find P xs = Some x \<Longrightarrow> find P (xs @ ys) = Some x"
  by (induction xs) (auto split: if_splits)

lemma find_append_None: "find P xs = None \<Longrightarrow> find P (xs @ ys) = find P ys"
  by (induction xs) (auto split: if_splits)

lemma find_map_inv:
  assumes "\<And>x. P (f x) = P x"
  shows "find P (map f xs) = map_option f (find P xs)"
  by (induction xs) (auto simp: assms)

lemma find_Some_list_ex: "find P xs = Some x \<Longrightarrow> list_ex (\<lambda>y. f y = f x) xs"
  by (induction xs) (auto split: if_splits)

lemma find_None_list_ex: "find P xs = None \<Longrightarrow> \<not> list_ex P xs"
  by (induction xs) (auto split: if_splits)

lemma grown_refl: "grown xs xs"
  by (induction xs) auto

lemma grown_append: "grown xs (xs @ ys)"
  by (induction xs) auto

lemma grown_map: "grown xs (map (\<lambda>x. if P x then x\<lparr>a_isActive := True\<rparr> else x) xs)"
  by (induction xs) auto

lemma grown_trans: "grown xs ys \<Longrightarrow> grown ys zs \<Longrightarrow> grown xs zs"
proof (induction xs ys arbitrary: zs rule: grown.induct)
  case (1 zs)
  then show ?case by simp
next
  case (2 x xs)
  then show ?case by simp
next
  case (3 x xs z zs zs')
  then show ?case by (cases zs') auto
qed

lemma find_grown:
  "grown xs zs \<Longrightarrow> find (\<lambda>x. a_tutorId x = t \<and> a_sectionSubjectId x = i) xs = Some a \<Longrightarrow>
   \<exists>a'. find (\<lambda>x. a_tutorId x = t \<and> a_sectionSubjectId x = i) zs = Some a' \<and>
        (a' = a \<or> a' = a\<lparr>a_isActive := True\<rparr>)"
  by (induction xs zs rule: grown.induct) (auto split: if_splits)

lemma grows_refl: "grows d d"
  by (simp add: grows_def grown_refl)

lemma grows_trans: "grows d d' \<Longrightarrow> grows d' d'' \<Longrightarrow> grows d d''"
  by (auto simp: grows_def intro: grown_trans)

lemma settled_grows:
  assumes "grows d d'" and "settled t sid nm d"
  shows "settled t sid nm d'"
proof -
  from assms(2) obtain found a
    where f: "find (\<lambda>x. ss_sectionId x = sid \<and> ss_name x = nm \<and> ss_isActive x) (sectionSubjects d) = Some found"
      and a: "find (\<lambda>x. a_tutorId x = t \<and> a_sectionSubjectId x = ss_id found) (assignments d) = Some a"
      and act: "a_isActive a"
    by (auto simp: settled_def split: option.splits)
  from assms(1) obtain ys where ys: "sectionSubjects d' = sectionSubjects d @ ys"
    and g: "grown (assignments d) (assignments d')"
    by (auto simp: grows_def)
  have f': "find (\<lambda>x. ss_sectionId x = sid \<and> ss_name x = nm \<and> ss_isActive x) (sectionSubjects d') = Some found"
    by (simp add: ys find_append_Some [OF f])
  from find_grown [OF g a] obtain a'
    where a': "find (\<lambda>x. a_tutorId x = t \<and> a_sectionSubjectId x = ss_id found) (assignments d') = Some a'"
      and "a' = a \<or> a' = a\<lparr>a_isActive := True\<rparr>"
    by blast
  then have "a_isActive a'" using act by auto
  then show ?thesis by (simp add: settled_def f' a')
qed

lemma sectionSubject_create_Inr:
  assumes "sectionSubject_create nm sid d = Inr (d1, row)"
  shows "d1 = d\<lparr>sectionSubjects := sectionSubjects d @ [row], nextId := Suc (nextId d)\<rparr>"
    and "ss_name row = nm" and "ss_sectionId row = sid" and "ss_isActive row"
  using assms by (auto simp: sectionSubject_create_def Let_def split: if_splits)

lemma tutorSubjectAssignment_create_Inr:
  assumes "tutorSubjectAssignment_create t i d = Inr (d1, row)"
  shows "d1 = d\<lparr>assignments := assignments d @ [row], nextId := Suc (nextId d)\<rparr>"
    and "a_tutorId row = t" and "a_sectionSubjectId row = i" and "a_isActive row"
  using assms by (auto simp: tutorSubjectAssignment_create_def Let_def split: if_splits)

lemma tutorSubjectAssignment_setActive_Inr:
  assumes "tutorSubjectAssignment_setActive i True d = Inr d1"
  shows "d1 = d\<lparr>assignments := map (\<lambda>x. if a_id x = i then x\<lparr>a_isActive := True\<rparr> else x) (assignments d)\<rparr>"
  using assms by (auto simp: tutorSubjectAssignment_setActive_def split: if_splits)

text \<open>What one run of the inner loop body leaves behind.\<close>

lemma assignSubject_post:
  assumes "assignSubject t sec g s nm (d, acc) = Inr (d', acc')"
  shows "grows d d'" and "settled t (s_id sec) nm d'"
    and "errors acc' = errors acc"
    and "set (createdAssignments acc') \<subseteq> set (createdAssignments acc) \<union>
           {c. ci_grade c = g \<and> ci_section c = s \<and> ci_subject c = nm}"
proof -
  let ?K = "\<lambda>x. ss_sectionId x = s_id sec \<and> ss_name x = nm \<and> ss_isActive x"
  obtain d1 found where
    step1: "(case find ?K (sectionSubjects d) of Some f \<Rightarrow> Inr (d, f)
             | None \<Rightarrow> sectionSubject_create nm (s_id sec) d) = Inr (d1, found)"
    using assms by (auto simp: assignSubject_def split: sum.splits)
  have g1: "grows d d1" and f1: "find ?K (sectionSubjects d1) = Some found"
    and as1: "assignments d1 = assignments d"
  proof -
    show "grows d d1" using step1
      by (auto simp: grows_def grown_refl split: option.splits dest!: sectionSubject_create_Inr(1))
    show "find ?K (sectionSubjects d1) = Some found"
    proof (cases "find ?K (sectionSubjects d)")
      case None
      with step1 have c: "sectionSubject_create nm (s_id sec) d = Inr (d1, found)" by simp
      show ?thesis
        using sectionSubject_create_Inr [OF c] by (simp add: find_append_None [OF None])
    next
      case (Some f)
      with step1 show ?thesis by simp
    qed
    show "assignments d1 = assignments d" using step1
      by (auto split: option.splits dest!: sectionSubject_create_Inr(1))
  qed
  let ?A = "\<lambda>x. a_tutorId x = t \<and> a_sectionSubjectId x = ss_id found"
  have rest: "(case find ?A (assignments d1) of
       Some ex \<Rightarrow>
         (if a_isActive ex
          then Inr (d1, acc\<lparr>skippedAssignments := skippedAssignments acc @ [skipped g s nm]\<rparr>)
          else (case tutorSubjectAssignment_setActive (a_id ex) True d1 of
                  Inl e \<Rightarrow> Inl e
                | Inr d2 \<Rightarrow>
                    Inr (d2, acc\<lparr>createdAssignments := createdAssignments acc @
                           [\<lparr>ci_id = a_id ex, ci_grade = g, ci_section = s, ci_subject = nm,
                             ci_reactivated = True\<rparr>]\<rparr>)))
     | None \<Rightarrow>
         (case tutorSubjectAssignment_create t (ss_id found) d1 of
            Inl e \<Rightarrow> Inl e
          | Inr (d2, assignment) \<Rightarrow>
              Inr (d2, acc\<lparr>createdAssignments := createdAssignments acc @
                     [\<lparr>ci_id = a_id assignment, ci_grade = g, ci_section = s, ci_subject = nm,
                       ci_reactivated = False\<rparr>]\<rparr>))) = Inr (d', acc')"
    using assms step1 by (simp add: assignSubject_def)
  have "grows d1 d' \<and> settled t (s_id sec) nm d' \<and> errors acc' = errors acc \<and>
     set (createdAssignments acc') \<subseteq> set (createdAssignments acc) \<union>
           {c. ci_grade c = g \<and> ci_section c = s \<and> ci_subject c = nm}"
  proof (cases "find ?A (assignments d1)")
    case None
    with rest obtain row where c: "tutorSubjectAssignment_create t (ss_id found) d1 = Inr (d', row)"
      and acc': "acc' = acc\<lparr>createdAssignments := createdAssignments acc @
                     [\<lparr>ci_id = a_id row, ci_grade = g, ci_section = s, ci_subject = nm,
                       ci_reactivated = False\<rparr>]\<rparr>"
      by (auto split: sum.splits)
    note r = tutorSubjectAssignment_create_Inr [OF c]
    have "find ?A (assignments d') = Some row"
      using r by (simp add: find_append_None [OF None])
    then have "settled t (s_id sec) nm d'"
      using r f1 by (simp add: settled_def)
    moreover have "grows d1 d'" using r by (simp add: grows_def grown_append)
    ultimately show ?thesis by (auto simp: acc')
  next
    case (Some ex)
    show ?thesis
    proof (cases "a_isActive ex")
      case True
      with rest Some have "d' = d1" and "acc' = acc\<lparr>skippedAssignments := skippedAssignments acc @ [skipped g s nm]\<rparr>"
        by auto
      then show ?thesis using f1 Some True by (auto simp: settled_def grows_refl)
    next
      case False
      with rest Some have u: "tutorSubjectAssignment_setActive (a_id ex) True d1 = Inr d'"
        and acc': "acc' = acc\<lparr>createdAssignments := createdAssignments acc @
                           [\<lparr>ci_id = a_id ex, ci_grade = g, ci_section = s, ci_subject = nm,
                             ci_reactivated = True\<rparr>]\<rparr>"
        by (auto split: sum.splits)
      note r = tutorSubjectAssignment_setActive_Inr [OF u]
      have "find ?A (assignments d') =
          map_option (\<lambda>x. if a_id x = a_id ex then x\<lparr>a_isActive := True\<rparr> else x) (find ?A (assignments d1))"
        unfolding r by (simp add: find_map_inv)
      then have "find ?A (assignments d') = Some (ex\<lparr>a_isActive := True\<rparr>)"
        by (simp add: Some)
      then have "settled t (s_id sec) nm d'"
        using r f1 by (simp add: settled_def)
      moreover have "grows d1 d'" using r by (simp add: grows_def grown_map)
      ultimately show ?thesis by (auto simp: acc')
    qed
  qed
  with g1 show "grows d d'" and "settled t (s_id sec) nm d'"
    and "errors acc' = errors acc"
    and "set (createdAssignments acc') \<subseteq> set (createdAssignments acc) \<union>
           {c. ci_grade c = g \<and> ci_section c = s \<and> ci_subject c = nm}"
    by (auto intro: grows_trans)
qed

lemma assignSubjects_post:
  assumes "forEach (assignSubject t sec g s) nms (d, acc) = Inr (d', acc')"
  shows "grows d d' \<and> (\<forall>nm\<in>set nms. settled t (s_id sec) nm d') \<and> errors acc' = errors acc \<and>
         set (createdAssignments acc') \<subseteq> set (createdAssignments acc) \<union>
           {c. ci_grade c = g \<and> ci_section c = s \<and> ci_subject c \<in> set nms}"
  using assms
proof (induction nms arbitrary: d acc)
  case Nil
  then show ?case by (simp add: grows_refl)
next
  case (Cons nm nms)
  from Cons.prems obtain d1 acc1 where
    one: "assignSubject t sec g s nm (d, acc) = Inr (d1, acc1)"
    and more: "forEach (assignSubject t sec g s) nms (d1, acc1) = Inr (d', acc')"
    by (auto split: sum.splits)
  note p = assignSubject_post [OF one]
  note ih = Cons.IH [OF more]
  have "settled t (s_id sec) nm d'"
    using ih p(2) settled_grows by blast
  moreover have "grows d d'" using ih p(1) grows_trans by blast
  ultimately show ?case using ih p(3,4) by auto
qed

lemma findGrade_grows: "grows d d' \<Longrightarrow> findGrade sch g d' = findGrade sch g d"
  by (simp add: findGrade_def grows_def)

lemma findSection_grows: "grows d d' \<Longrightarrow> findSection i s d' = findSection i s d"
  by (simp add: findSection_def grows_def)

lemma resolve_grows: "grows d d' \<Longrightarrow> resolve sch key d' = resolve sch key d"
  by (simp add: resolve_def findGrade_grows findSection_grows cong: option.case_cong)

lemma allSkipped_grows: "grows d d' \<Longrightarrow> allSkipped sch d' es = allSkipped sch d es"
  by (simp add: allSkipped_def resolve_grows)

lemma allSettled_grows: "grows d d' \<Longrightarrow> allSettled sch t d0 d es \<Longrightarrow> allSettled sch t d0 d' es"
  unfolding allSettled_def using settled_grows by blast

lemma assignEntry_post:
  assumes "assignEntry sch t (key, nms) (d, acc) = Inr (d', acc')"
  shows "grows d d' \<and> allSettled sch t d d' [(key, nms)] \<and>
         (\<forall>c\<in>set (createdAssignments acc') - set (createdAssignments acc).
            skipped (ci_grade c) (ci_section c) (ci_subject c) \<in> set (allSkipped sch d [(key, nms)]))"
proof (cases "resolve sch key d")
  case None
  then have "d' = d \<and> createdAssignments acc' = createdAssignments acc"
    using assms by (auto simp: assignEntry_def resolve_def split: option.splits)
  then show ?thesis by (simp add: grows_refl allSettled_def None)
next
  case (Some r)
  obtain g s sid where r: "r = (g, s, sid)" by (cases r)
  from Some r obtain grade sec where pk: "parseKey key = Some (g, s)"
    and fg: "findGrade sch g d = Some grade" and fs: "findSection (g_id grade) s d = Some sec"
    and sid: "sid = s_id sec"
    by (auto simp: resolve_def split: option.splits)
  from assms have "forEach (assignSubject t sec g s) nms (d, acc) = Inr (d', acc')"
    by (simp add: assignEntry_def pk fg fs)
  note p = assignSubjects_post [OF this]
  have "\<forall>c\<in>set (createdAssignments acc') - set (createdAssignments acc).
            skipped (ci_grade c) (ci_section c) (ci_subject c) \<in> set (map (skipped g s) nms)"
    using p by auto
  then show ?thesis using p by (simp add: allSettled_def allSkipped_def Some r sid)
qed

lemma allSettled_Cons:
  "allSettled sch t d0 d (e # es) = (allSettled sch t d0 d [e] \<and> allSettled sch t d0 d es)"
  by (auto simp: allSettled_def)

lemma allSkipped_Cons: "allSkipped sch d (e # es) = allSkipped sch d [e] @ allSkipped sch d es"
  by (simp add: allSkipped_def)

lemma assignEntries_post:
  assumes "forEach (assignEntry sch t) es (d, acc) = Inr (d', acc')"
  shows "grows d d' \<and> allSettled sch t d d' es \<and>
         (\<forall>c\<in>set (createdAssignments acc') - set (createdAssignments acc).
            skipped (ci_grade c) (ci_section c) (ci_subject c) \<in> set (allSkipped sch d es))"
  using assms
proof (induction es arbitrary: d acc)
  case Nil
  then show ?case by (simp add: grows_refl allSettled_def)
next
  case (Cons e es)
  obtain key nms where e: "e = (key, nms)" by (cases e)
  from Cons.prems obtain d1 acc1 where
    one: "assignEntry sch t (key, nms) (d, acc) = Inr (d1, acc1)"
    and more: "forEach (assignEntry sch t) es (d1, acc1) = Inr (d', acc')"
    by (auto simp: e split: sum.splits)
  note p = assignEntry_post [OF one]
  note ih = Cons.IH [OF more]
  from p have g1: "grows d d1" by simp
  from ih have g2: "grows d1 d'" by simp
  have a: "allSettled sch t d d' [e]"
    using p allSettled_grows [OF g2] by (simp add: e)
  have b: "allSettled sch t d d' es"
    using ih by (simp add: allSettled_def resolve_grows [OF g1])
  have c: "\<forall>c\<in>set (createdAssignments acc') - set (createdAssignments acc).
            skipped (ci_grade c) (ci_section c) (ci_subject c) \<in> set (allSkipped sch d (e # es))"
  proof
    fix c assume "c \<in> set (createdAssignments acc') - set (createdAssignments acc)"
    then consider "c \<in> set (createdAssignments acc') - set (createdAssignments acc1)"
      | "c \<in> set (createdAssignments acc1) - set (createdAssignments acc)" by blast
    then show "skipped (ci_grade c) (ci_section c) (ci_subject c) \<in> set (allSkipped sch d (e # es))"
    proof cases
      case 1
      with ih have "skipped (ci_grade c) (ci_section c) (ci_subject c) \<in> set (allSkipped sch d1 es)"
        by blast
      then show ?thesis by (simp add: allSkipped_Cons [of sch d e es] allSkipped_grows [OF g1])
    next
      case 2
      with p have "skipped (ci_grade c) (ci_section c) (ci_subject c) \<in> set (allSkipped sch d [e])"
        by (simp add: e)
      then show ?thesis by (simp add: allSkipped_Cons [of sch d e es])
    qed
  qed
  from a b c g1 g2 show ?case
    using allSettled_Cons [of sch t d d' e es] grows_trans by blast
qed

text \<open>A second run finds every subject settled and only records the duplicates.\<close>

lemma assignSubject_skip:
  assumes "settled t (s_id sec) nm d"
  shows "assignSubject t sec g s nm (d, acc) =
           Inr (d, acc\<lparr>skippedAssignments := skippedAssignments acc @ [skipped g s nm]\<rparr>)"
  using assms by (auto simp: settled_def assignSubject_def split: option.splits)

lemma assignSubjects_skip:
  assumes "\<forall>nm\<in>set nms. settled t (s_id sec) nm d"
  shows "forEach (assignSubject t sec g s) nms (d, acc) =
           Inr (d, acc\<lparr>skippedAssignments := skippedAssignments acc @ map (skipped g s) nms\<rparr>)"
  using assms by (induction nms arbitrary: acc) (simp_all add: assignSubject_skip)

lemma assignEntry_skip:
  assumes "allSettled sch t d d [(key, nms)]"
  shows "\<exists>errs. assignEntry sch t (key, nms) (d, acc) =
           Inr (d, acc\<lparr>skippedAssignments := skippedAssignments acc @ allSkipped sch d [(key, nms)],
                       errors := errors acc @ errs\<rparr>)"
proof (cases "resolve sch key d")
  case None
  then show ?thesis
    by (auto simp: assignEntry_def resolve_def allSkipped_def split: option.splits)
next
  case (Some r)
  obtain g s sid where r: "r = (g, s, sid)" by (cases r)
  from Some r obtain grade sec where pk: "parseKey key = Some (g, s)"
    and fg: "findGrade sch g d = Some grade" and fs: "findSection (g_id grade) s d = Some sec"
    and sid: "sid = s_id sec"
    by (auto simp: resolve_def split: option.splits)
  from assms have "\<forall>nm\<in>set nms. settled t (s_id sec) nm d"
    by (simp add: allSettled_def Some r sid)
  from assignSubjects_skip [OF this]
  have "assignEntry sch t (key, nms) (d, acc) =
      Inr (d, acc\<lparr>skippedAssignments := skippedAssignments acc @ map (skipped g s) nms\<rparr>)"
    by (simp add: assignEntry_def pk fg fs)
  then show ?thesis
    by (intro exI [of _ "[]"]) (simp add: allSkipped_def Some r)
qed

lemma assignEntries_skip:
  assumes "allSettled sch t d d es"
  shows "\<exists>errs. forEach (assignEntry sch t) es (d, acc) =
           Inr (d, acc\<lparr>skippedAssignments := skippedAssignments acc @ allSkipped sch d es,
                       errors := errors acc @ errs\<rparr>)"
  using assms
proof (induction es arbitrary: acc)
  case Nil
  show ?case by (intro exI [of _ "[]"]) (simp add: allSkipped_def)
next
  case (Cons e es)
  obtain key nms where e: "e = (key, nms)" by (cases e)
  from Cons.prems have a: "allSettled sch t d d [(key, nms)]" and b: "allSettled sch t d d es"
    using allSettled_Cons [of sch t d d e es] by (simp_all add: e)
  from assignEntry_skip [OF a, of acc] obtain errs1 where
    one: "assignEntry sch t (key, nms) (d, acc) =
           Inr (d, acc\<lparr>skippedAssignments := skippedAssignments acc @ allSkipped sch d [(key, nms)],
                       errors := errors acc @ errs1\<rparr>)" by blast
  let ?acc1 = "acc\<lparr>skippedAssignments := skippedAssignments acc @ allSkipped sch d [(key, nms)],
                       errors := errors acc @ errs1\<rparr>"
  from Cons.IH [OF b, of ?acc1] obtain errs2 where
    more: "forEach (assignEntry sch t) es (d, ?acc1) =
           Inr (d, ?acc1\<lparr>skippedAssignments := skippedAssignments ?acc1 @ allSkipped sch d es,
                    errors := errors ?acc1 @ errs2\<rparr>)"
    by blast
  show ?case
    by (intro exI [of _ "errs1 @ errs2"])
      (simp add: e one more allSkipped_Cons [of sch d "(key, nms)" es])
qed

subsection \<open>The class tutor part\<close>

lemma retag_retag: "retag i t (retag i t secs) = retag i t secs"
  by (induction secs) (auto simp: retag_def)

lemma find_retag:
  "find (\<lambda>s. s_gradeId s = gi \<and> s_name s = nm \<and> s_isActive s) (retag i t secs) =
   map_option (\<lambda>x. if s_id x = i then x\<lparr>s_classTutorId := Some t\<rparr> else x)
     (find (\<lambda>s. s_gradeId s = gi \<and> s_name s = nm \<and> s_isActive s) secs)"
  unfolding retag_def by (rule find_map_inv) simp

lemma list_ex_retag: "list_ex (\<lambda>x. s_id x = j) (retag i t secs) = list_ex (\<lambda>x. s_id x = j) secs"
  by (induction secs) (auto simp: retag_def)

lemma section_setClassTutor_Some:
  "section_setClassTutor i (Some t) d =
     (if \<not> list_ex (\<lambda>x. s_id x = i) (sections d) then Inl P2025
      else if \<not> list_ex (\<lambda>x. t_id x = t) (tutors d) then Inl P2003
      else Inr (d\<lparr>sections := retag i t (sections d)\<rparr>))"
  by (simp add: section_setClassTutor_def retag_def)

lemma findTutor_list_ex:
  "find (\<lambda>x. t_id x = t \<and> t_schoolId x = sch) (tutors d) = Some tu \<Longrightarrow> list_ex (\<lambda>x. t_id x = t) (tutors d)"
  by (induction "tutors d" arbitrary: d) (auto simp: list_ex_iff dest!: find_Some_iff [THEN iffD1] intro: nth_mem)


lemma findSection_list_ex: "findSection gi nm d = Some sec \<Longrightarrow> list_ex (\<lambda>x. s_id x = s_id sec) (sections d)"
  unfolding findSection_def by (rule find_Some_list_ex)

lemma assignClassTutorPart_resolved:
  assumes "cg \<noteq> []" and "cs \<noteq> []" and "findGrade sch cg d = Some grade"
    and "findSection (g_id grade) cs d = Some sec" and "list_ex (\<lambda>x. t_id x = t) (tutors d)"
  shows "assignClassTutorPart sch t (Some cg) (Some cs) (d, errs) =
     (case s_classTutorId sec of
        Some other \<Rightarrow>
          if other \<noteq> t
          then Inr (d, None, errs @ [''Section '' @ cg @ ''-'' @ cs @ '' already has '' @
                                     classTutorName other d @ '' as class tutor''])
          else Inr (d\<lparr>sections := retag (s_id sec) t (sections d)\<rparr>, Some (cg, cs), errs)
      | None \<Rightarrow> Inr (d\<lparr>sections := retag (s_id sec) t (sections d)\<rparr>, Some (cg, cs), errs))"
  using assms findSection_list_ex [OF assms(4)]
  by (simp add: assignClassTutorPart_def section_setClassTutor_Some split: option.splits)

text \<open>
  Claim C2. The request names a tutor of the school and a class grade and class section
  that resolve to a section, and the subject part of the transaction has run through
  (it leaves the sections table alone). If the section has another tutor as class tutor,
  the response (status 201) carries the error naming that tutor and no class tutor
  assignment, and the sections table is unchanged; otherwise the section's class tutor
  becomes the given tutor and the response reports the class tutor assignment.
\<close>

theorem smartAssignTutor_class_tutor:
  assumes "ar_tutorId req = Some t"
    and "find (\<lambda>x. t_id x = t \<and> t_schoolId x = sch) (tutors d) = Some tu"
    and "ar_classGrade req = Some cg" and "cg \<noteq> []"
    and "ar_classSection req = Some cs" and "cs \<noteq> []"
    and "findGrade sch cg d = Some grade" and "findSection (g_id grade) cs d = Some sec"
    and "forEach (assignEntry sch t) (ar_assignments req) (d, emptyAcc) = Inr (d1, acc)"
  shows "sections d1 = sections d \<and>
         smartAssignTutor who sch req d =
           (case s_classTutorId sec of
              Some other \<Rightarrow>
                if other \<noteq> t
                then ((201, Assigned t (t_name tu) (createdAssignments acc)
                         (orUndefined (skippedAssignments acc)) None
                         (Some (errors acc @ [''Section '' @ cg @ ''-'' @ cs @ '' already has '' @
                                     classTutorName other d @ '' as class tutor'']))),
                      logAudit who ''ASSIGN_TUTOR'' ''TutorAssignment'' t d1)
                else ((201, Assigned t (t_name tu) (createdAssignments acc)
                         (orUndefined (skippedAssignments acc)) (Some (cg, cs))
                         (orUndefined (errors acc))),
                      logAudit who ''ASSIGN_TUTOR'' ''TutorAssignment'' t
                        (d1\<lparr>sections := retag (s_id sec) t (sections d)\<rparr>))
            | None \<Rightarrow>
                ((201, Assigned t (t_name tu) (createdAssignments acc)
                    (orUndefined (skippedAssignments acc)) (Some (cg, cs))
                    (orUndefined (errors acc))),
                 logAudit who ''ASSIGN_TUTOR'' ''TutorAssignment'' t
                   (d1\<lparr>sections := retag (s_id sec) t (sections d)\<rparr>)))"
proof -
  from assignEntries_post [OF assms(9)] have g: "grows d d1" by simp
  then have same: "sections d1 = sections d" "tutors d1 = tutors d"
    by (simp_all add: grows_def)
  have fg: "findGrade sch cg d1 = Some grade" using assms(7) by (simp add: findGrade_grows [OF g])
  have fs: "findSection (g_id grade) cs d1 = Some sec"
    using assms(8) by (simp add: findSection_grows [OF g])
  have tu: "list_ex (\<lambda>x. t_id x = t) (tutors d1)"
    using findTutor_list_ex [OF assms(2)] by (simp add: same)
  have name: "\<And>other. classTutorName other d1 = classTutorName other d"
    by (simp add: classTutorName_def same)
  note part = assignClassTutorPart_resolved [OF assms(4) assms(6) fg fs tu, of "errors acc"]
  show ?thesis
    by (simp add: smartAssignTutor_def smartAssignTransaction_def assms part same name
        orUndefined_Cons [where ys = "[]", simplified] split: option.splits)
qed


theorem smartAssignTutor_class_tutor_witness:
  "smartAssignTutor demoActor 10 (classRequest ''B'') demoDb =
     ((201, Assigned 20 ''Jane'' [] None None
         (Some [''Section Grade 1-B already has Omar as class tutor''])),
      logAudit demoActor ''ASSIGN_TUTOR'' ''TutorAssignment'' 20 demoDb) \<and>
   map s_classTutorId (sections (snd (smartAssignTutor demoActor 10 (classRequest ''A'') demoDb))) =
     [Some 20, Some 22]"
proof -
  let ?jane = "\<lparr>t_id = 20, t_name = ''Jane'', t_email = ''jane@lincoln.example'', t_phone = ''555-0100'',
                 t_schoolId = 10, t_isActive = True\<rparr>"
  let ?g = "\<lparr>g_id = 30, g_name = ''Grade 1'', g_schoolId = 10, g_order = 1, g_isActive = True\<rparr>"
  let ?a = "\<lparr>s_id = 40, s_name = ''A'', s_gradeId = 30, s_classTutorId = None, s_isActive = True\<rparr>"
  let ?b = "\<lparr>s_id = 41, s_name = ''B'', s_gradeId = 30, s_classTutorId = Some 22, s_isActive = True\<rparr>"
  have t: "ar_tutorId (classRequest n) = Some 20" for n by (simp add: classRequest_def)
  have tu: "find (\<lambda>x. t_id x = 20 \<and> t_schoolId x = 10) (tutors demoDb) = Some ?jane"
    by (simp add: demoDb_def)
  have cg: "ar_classGrade (classRequest n) = Some ''Grade 1''" for n by (simp add: classRequest_def)
  have cs: "ar_classSection (classRequest n) = Some n" for n by (simp add: classRequest_def)
  have fg: "findGrade 10 ''Grade 1'' demoDb = Some ?g" by (simp add: findGrade_def demoDb_def)
  have fa: "findSection (g_id ?g) ''A'' demoDb = Some ?a" by (simp add: findSection_def demoDb_def)
  have fb: "findSection (g_id ?g) ''B'' demoDb = Some ?b" by (simp add: findSection_def demoDb_def)
  have loop: "forEach (assignEntry 10 20) (ar_assignments (classRequest n)) (demoDb, emptyAcc) =
      Inr (demoDb, emptyAcc)" for n
    by (simp add: classRequest_def)
  have omar: "classTutorName 22 demoDb = ''Omar''" by (simp add: classTutorName_def demoDb_def)
  have "smartAssignTutor demoActor 10 (classRequest ''B'') demoDb =
     ((201, Assigned 20 ''Jane'' [] None None
         (Some [''Section Grade 1-B already has Omar as class tutor''])),
      logAudit demoActor ''ASSIGN_TUTOR'' ''TutorAssignment'' 20 demoDb)"
    using smartAssignTutor_class_tutor [OF t tu cg _ cs _ fg fb loop, of demoActor]
    by (simp add: omar emptyAcc_def orUndefined_def)
  moreover have "map s_classTutorId (sections (snd (smartAssignTutor demoActor 10 (classRequest ''A'') demoDb))) =
     [Some 20, Some 22]"
    using smartAssignTutor_class_tutor [OF t tu cg _ cs _ fg fa loop, of demoActor]
    by (simp add: emptyAcc_def orUndefined_def logAudit_def retag_def demoDb_def)
  ultimately show ?thesis by simp
qed

text \<open>Running the class tutor part again, on the tables it has left, changes nothing.\<close>

lemma assignClassTutorPart_again:
  assumes run: "assignClassTutorPart sch t cg cs (d, e) = Inr (dT, ct, e2)"
    and tu: "list_ex (\<lambda>x. t_id x = t) (tutors d)"
    and same: "tutors d1 = tutors dT" "grades d1 = grades dT" "sections d1 = sections dT"
  shows "\<exists>e3. assignClassTutorPart sch t cg cs (d1, e') = Inr (d1, ct, e3)"
proof (cases "\<exists>cg' cs'. cg = Some cg' \<and> cs = Some cs' \<and> cg' \<noteq> [] \<and> cs' \<noteq> []")
  case False
  then show ?thesis using run
    by (auto simp: assignClassTutorPart_def split: option.splits)
next
  case True
  then obtain cg' cs' where sup: "cg = Some cg'" "cs = Some cs'" "cg' \<noteq> []" "cs' \<noteq> []"
    by blast
  show ?thesis
  proof (cases "findGrade sch cg' d")
    case None
    with run sup have "dT = d" "ct = None" by (auto simp: assignClassTutorPart_def)
    with None same show ?thesis by (simp add: assignClassTutorPart_def sup findGrade_def)
  next
    case (Some grade)
    show ?thesis
    proof (cases "findSection (g_id grade) cs' d")
      case None
      with run sup Some have "dT = d" "ct = None" by (auto simp: assignClassTutorPart_def)
      with None Some same show ?thesis
        by (simp add: assignClassTutorPart_def sup findGrade_def findSection_def)
    next
      case sec: (Some sec)
      note first = assignClassTutorPart_resolved [OF sup(3,4) Some sec tu, of e]
      show ?thesis
      proof (cases "\<exists>other. s_classTutorId sec = Some other \<and> other \<noteq> t")
        case True
        with run first sup have "dT = d" "ct = None" by auto
        with Some sec same True tu show ?thesis
          using findSection_list_ex [OF sec]
          by (auto simp: assignClassTutorPart_def sup findGrade_def findSection_def)
      next
        case False
        with run first sup have dT: "dT = d\<lparr>sections := retag (s_id sec) t (sections d)\<rparr>"
          and ct: "ct = Some (cg', cs')"
          by (auto split: option.splits if_splits)
        let ?sec = "sec\<lparr>s_classTutorId := Some t\<rparr>"
        have fg: "findGrade sch cg' d1 = Some grade"
          using Some same dT by (simp add: findGrade_def)
        have fs: "findSection (g_id grade) cs' d1 = Some ?sec"
          using sec same dT by (simp add: findSection_def find_retag)
        have tu1: "list_ex (\<lambda>x. t_id x = t) (tutors d1)" using tu same dT by simp
        have "d1\<lparr>sections := retag (s_id sec) t (sections d1)\<rparr> = d1"
          using same dT by (simp add: retag_retag)
        then show ?thesis
          using assignClassTutorPart_resolved [OF sup(3,4) fg fs tu1, of e']
          by (simp add: sup ct)
      qed
    qed
  qed
qed

lemma resolve_same:
  assumes "grades d1 = grades d" and "sections d1 = sections d \<or> sections d1 = retag i t (sections d)"
  shows "resolve sch key d1 = resolve sch key d"
proof -
  have g: "\<And>g. findGrade sch g d1 = findGrade sch g d" by (simp add: findGrade_def assms)
  have k: "(\<lambda>x. s_id (if s_id x = i then x\<lparr>s_classTutorId := Some t\<rparr> else x)) = s_id"
    by (rule ext) simp
  have s: "map_option s_id (findSection gi s d1) = map_option s_id (findSection gi s d)" for gi s
    using assms(2) by (auto simp: findSection_def find_retag option.map_comp comp_def k)
  have c: "(case findSection gi s d1 of None \<Rightarrow> None | Some sec \<Rightarrow> Some (g, s, s_id sec)) =
        (case findSection gi s d of None \<Rightarrow> None | Some sec \<Rightarrow> Some (g, s, s_id sec))" for gi s g
    using s [of gi s] by (cases "findSection gi s d1"; cases "findSection gi s d") auto
  show ?thesis
  proof (cases "parseKey key")
    case None
    then show ?thesis by (simp add: resolve_def)
  next
    case (Some p)
    obtain gn sn where p: "p = (gn, sn)" by (cases p)
    show ?thesis
    proof (cases "findGrade sch gn d")
      case None
      then show ?thesis by (simp add: resolve_def Some p g)
    next
      case grade: (Some grade)
      show ?thesis by (simp add: resolve_def Some p g grade c)
    qed
  qed
qed


lemma assignClassTutorPart_Inr:
  assumes "assignClassTutorPart sch t cg cs (d, e) = Inr (dT, ct, e2)"
  shows "dT = d \<or> (\<exists>i. dT = d\<lparr>sections := retag i t (sections d)\<rparr>)"
  using assms
  by (auto simp: assignClassTutorPart_def section_setClassTutor_Some split: option.splits if_splits)

lemma settled_same:
  "sectionSubjects d1 = sectionSubjects d \<Longrightarrow> assignments d1 = assignments d \<Longrightarrow>
   settled t sid nm d1 = settled t sid nm d"
  by (simp add: settled_def cong: option.case_cong)

lemma smartAssignTutor_again:
  assumes first: "smartAssignTutor who sch req d = ((201, Assigned i n cr sk ct er), d1)"
  shows "\<exists>sk2 er2 d2.
           smartAssignTutor who' sch req d1 = ((201, Assigned i n [] (orUndefined sk2) ct er2), d2) \<and>
           d2\<lparr>auditLogs := auditLogs d1\<rparr> = d1 \<and>
           (\<forall>c\<in>set cr. skipped (ci_grade c) (ci_section c) (ci_subject c) \<in> set sk2)"
proof -
  let ?es = "ar_assignments req"
  from first obtain tu dT res where t: "ar_tutorId req = Some i"
    and tu: "find (\<lambda>x. t_id x = i \<and> t_schoolId x = sch) (tutors d) = Some tu"
    and tx: "smartAssignTransaction sch i req d = Inr (dT, res)"
    and n: "n = t_name tu" and cr: "cr = res_created res" and ct: "ct = res_classTutor res"
    and d1: "d1 = logAudit who ''ASSIGN_TUTOR'' ''TutorAssignment'' i dT"
    by (auto simp: smartAssignTutor_def split: option.splits sum.splits if_splits)
  from tx obtain d' acc' errs where
    loop: "forEach (assignEntry sch i) ?es (d, emptyAcc) = Inr (d', acc')"
    and part: "assignClassTutorPart sch i (ar_classGrade req) (ar_classSection req) (d', errors acc') =
                 Inr (dT, ct, errs)"
    and cr': "cr = createdAssignments acc'"
    by (auto simp: smartAssignTransaction_def cr ct split: sum.splits)
  from assignEntries_post [OF loop] have g: "grows d d'"
    and settled: "allSettled sch i d d' ?es"
    and covered: "\<forall>c\<in>set cr. skipped (ci_grade c) (ci_section c) (ci_subject c) \<in> set (allSkipped sch d ?es)"
    by (simp_all add: cr' emptyAcc_def)
  from assignClassTutorPart_Inr [OF part]
  have secs: "sections dT = sections d' \<or> (\<exists>j. sections dT = retag j i (sections d'))"
    and rest: "tutors dT = tutors d'" "grades dT = grades d'"
      "sectionSubjects dT = sectionSubjects d'" "assignments dT = assignments d'"
    by auto
  have same1: "tutors d1 = tutors dT" "grades d1 = grades dT" "sections d1 = sections dT"
    "sectionSubjects d1 = sectionSubjects dT" "assignments d1 = assignments dT"
    by (simp_all add: d1 logAudit_def)
  from g have same0: "tutors d' = tutors d" "grades d' = grades d" "sections d' = sections d"
    by (simp_all add: grows_def)
  from secs obtain j where secs1: "sections d1 = sections d \<or> sections d1 = retag j i (sections d)"
    by (auto simp: same1 same0)
  have res: "resolve sch key d1 = resolve sch key d" for key
    by (rule resolve_same [OF _ secs1]) (simp add: same1 rest same0)
  have set1: "settled i sid nm d1 = settled i sid nm d'" for sid nm
    by (rule settled_same) (simp_all add: same1 rest)
  have all1: "allSettled sch i d1 d1 ?es"
    using settled by (simp add: allSettled_def res set1)
  from assignEntries_skip [OF all1, of emptyAcc] obtain errs2 where
    loop2: "forEach (assignEntry sch i) ?es (d1, emptyAcc) =
              Inr (d1, emptyAcc\<lparr>skippedAssignments := skippedAssignments emptyAcc @ allSkipped sch d1 ?es,
                                errors := errors emptyAcc @ errs2\<rparr>)"
    by blast
  then have loop2': "forEach (assignEntry sch i) ?es (d1, emptyAcc) =
      Inr (d1, \<lparr>createdAssignments = [], skippedAssignments = allSkipped sch d1 ?es, errors = errs2\<rparr>)"
    by (simp add: emptyAcc_def)
  have tu': "list_ex (\<lambda>x. t_id x = i) (tutors d')"
    using findTutor_list_ex [OF tu] by (simp add: same0)
  from assignClassTutorPart_again [OF part tu' same1(1-3), of errs2] obtain e3 where
    part2: "assignClassTutorPart sch i (ar_classGrade req) (ar_classSection req) (d1, errs2) =
              Inr (d1, ct, e3)"
    by blast
  have tu1: "find (\<lambda>x. t_id x = i \<and> t_schoolId x = sch) (tutors d1) = Some tu"
    using tu by (simp add: same1 rest same0)
  have skip: "allSkipped sch d1 ?es = allSkipped sch d ?es"
    by (simp add: allSkipped_def res)
  have run2: "smartAssignTutor who' sch req d1 =
      ((201, Assigned i n [] (orUndefined (allSkipped sch d ?es)) ct (orUndefined e3)),
       logAudit who' ''ASSIGN_TUTOR'' ''TutorAssignment'' i d1)"
    by (simp add: smartAssignTutor_def smartAssignTransaction_def t tu1 loop2' part2 n skip)
  show ?thesis
    using run2 covered by (auto simp: logAudit_def)
qed

lemma smartAssignTutor_Message:
  assumes "smartAssignTutor who sch req d = ((st, Message m), d1)"
  shows "d1 = d \<and> st \<noteq> 201"
  using assms by (auto simp: smartAssignTutor_def split: option.splits sum.splits if_splits)

lemma smartAssignTutor_Assigned:
  assumes "smartAssignTutor who sch req d = ((st, Assigned i n cr sk ct er), d1)"
  shows "st = 201"
  using assms by (auto simp: smartAssignTutor_def split: option.splits sum.splits if_splits)

subsection \<open>Running the same request twice\<close>

text \<open>
  Claim C1. Run smartAssignTutor, then run it again with the same request on the state
  the first run left. The second run changes no table (it only adds its audit row) and
  answers with the same status. If the first run answered with assignments, the second
  creates none, reports the same class tutor assignment, and for every item the first run
  created or reactivated its skipped list holds an item with that grade name, that section
  name and that subject name.
\<close>

theorem smartAssignTutor_idempotent:
  "case smartAssignTutor who sch req d of
     ((status, body), d1) \<Rightarrow>
       (case smartAssignTutor who sch req d1 of
          ((status2, body2), d2) \<Rightarrow>
            d2\<lparr>auditLogs := auditLogs d1\<rparr> = d1 \<and> status2 = status \<and>
            (\<forall>i n cr sk ct er. body = Assigned i n cr sk ct er \<longrightarrow>
               (\<exists>sk2 er2. body2 = Assigned i n [] (orUndefined sk2) ct er2 \<and>
                  (\<forall>c\<in>set cr. \<exists>s\<in>set sk2. sk_grade s = ci_grade c \<and> sk_section s = ci_section c \<and>
                     sk_subject s = ci_subject c))))"
proof -
  obtain status body d1 where first: "smartAssignTutor who sch req d = ((status, body), d1)"
    by (metis surj_pair)
  show ?thesis
  proof (cases body)
    case (Message m)
    with first have "d1 = d" using smartAssignTutor_Message by blast
    then show ?thesis using first Message by simp
  next
    case (Assigned i n cr sk ct er)
    with first have st: "status = 201" using smartAssignTutor_Assigned by blast
    from smartAssignTutor_again [OF first [unfolded st Assigned], of who]
    obtain sk2 er2 d2 where
      second: "smartAssignTutor who sch req d1 = ((201, Assigned i n [] (orUndefined sk2) ct er2), d2)"
      and same: "d2\<lparr>auditLogs := auditLogs d1\<rparr> = d1"
      and cov: "\<forall>c\<in>set cr. skipped (ci_grade c) (ci_section c) (ci_subject c) \<in> set sk2"
      by blast
    have items: "\<forall>c\<in>set cr. \<exists>s\<in>set sk2. sk_grade s = ci_grade c \<and> sk_section s = ci_section c \<and>
        sk_subject s = ci_subject c"
    proof
      fix c assume "c \<in> set cr"
      with cov have "skipped (ci_grade c) (ci_section c) (ci_subject c) \<in> set sk2" by simp
      then show "\<exists>s\<in>set sk2. sk_grade s = ci_grade c \<and> sk_section s = ci_section c \<and>
          sk_subject s = ci_subject c"
        by (rule bexI [rotated]) (simp add: skipped_def)
    qed
    show ?thesis using first Assigned st second same items by auto
  qed
qed

theorem smartAssignTutor_idempotent_witness:
  "fst (smartAssignTutor demoActor 10 twoSectionsRequest demoDb) =
     (201, Assigned 20 ''Jane''
        [\<lparr>ci_id = 100, ci_grade = ''Grade 1'', ci_section = ''A'', ci_subject = ''English'',
          ci_reactivated = False\<rparr>,
         \<lparr>ci_id = 60, ci_grade = ''Grade 1'', ci_section = ''A'', ci_subject = ''Maths'',
          ci_reactivated = True\<rparr>,
         \<lparr>ci_id = 102, ci_grade = ''Grade 1'', ci_section = ''B'', ci_subject = ''Science'',
          ci_reactivated = False\<rparr>]
        None (Some (''Grade 1'', ''A'')) None) \<and>
   (\<exists>sk2 er2.
      fst (smartAssignTutor demoActor 10 twoSectionsRequest
             (snd (smartAssignTutor demoActor 10 twoSectionsRequest demoDb))) =
        (201, Assigned 20 ''Jane'' [] (orUndefined sk2) (Some (''Grade 1'', ''A'')) er2) \<and>
      (\<exists>s\<in>set sk2. sk_grade s = ''Grade 1'' \<and> sk_section s = ''A'' \<and> sk_subject s = ''English'') \<and>
      (\<exists>s\<in>set sk2. sk_grade s = ''Grade 1'' \<and> sk_section s = ''A'' \<and> sk_subject s = ''Maths'') \<and>
      (\<exists>s\<in>set sk2. sk_grade s = ''Grade 1'' \<and> sk_section s = ''B'' \<and> sk_subject s = ''Science'')) \<and>
   fst (smartAssignTutor demoActor 10 twoSectionsRequest
          (snd (smartAssignTutor demoActor 10 twoSectionsRequest demoDb))) =
     (201, Assigned 20 ''Jane'' []
        (Some [\<lparr>sk_grade = ''Grade 1'', sk_section = ''A'', sk_subject = ''English'', sk_reason = ''Already assigned''\<rparr>,
               \<lparr>sk_grade = ''Grade 1'', sk_section = ''A'', sk_subject = ''Maths'', sk_reason = ''Already assigned''\<rparr>,
               \<lparr>sk_grade = ''Grade 1'', sk_section = ''B'', sk_subject = ''Science'', sk_reason = ''Already assigned''\<rparr>])
        (Some (''Grade 1'', ''A'')) None) \<and>
   (snd (smartAssignTutor demoActor 10 twoSectionsRequest
          (snd (smartAssignTutor demoActor 10 twoSectionsRequest demoDb))))
      \<lparr>auditLogs := auditLogs (snd (smartAssignTutor demoActor 10 twoSectionsRequest demoDb))\<rparr> =
     snd (smartAssignTutor demoActor 10 twoSectionsRequest demoDb)"
proof -
  let ?run1 = "smartAssignTutor demoActor 10 twoSectionsRequest demoDb"
  let ?run2 = "smartAssignTutor demoActor 10 twoSectionsRequest (snd ?run1)"
  let ?cr = "[\<lparr>ci_id = 100, ci_grade = ''Grade 1'', ci_section = ''A'', ci_subject = ''English'',
          ci_reactivated = False\<rparr>,
         \<lparr>ci_id = 60, ci_grade = ''Grade 1'', ci_section = ''A'', ci_subject = ''Maths'',
          ci_reactivated = True\<rparr>,
         \<lparr>ci_id = 102, ci_grade = ''Grade 1'', ci_section = ''B'', ci_subject = ''Science'',
          ci_reactivated = False\<rparr>]"
  have one: "fst ?run1 = (201, Assigned 20 ''Jane'' ?cr None (Some (''Grade 1'', ''A'')) None)"
    by code_simp
  then have first: "?run1 = ((201, Assigned 20 ''Jane'' ?cr None (Some (''Grade 1'', ''A'')) None), snd ?run1)"
    by (simp add: prod_eq_iff)
  have two: "fst ?run2 =
     (201, Assigned 20 ''Jane'' []
        (Some [\<lparr>sk_grade = ''Grade 1'', sk_section = ''A'', sk_subject = ''English'', sk_reason = ''Already assigned''\<rparr>,
               \<lparr>sk_grade = ''Grade 1'', sk_section = ''A'', sk_subject = ''Maths'', sk_reason = ''Already assigned''\<rparr>,
               \<lparr>sk_grade = ''Grade 1'', sk_section = ''B'', sk_subject = ''Science'', sk_reason = ''Already assigned''\<rparr>])
        (Some (''Grade 1'', ''A'')) None)"
    by code_simp
  obtain st2 b2 d2 where second: "?run2 = ((st2, b2), d2)"
    by (metis surj_pair)
  from smartAssignTutor_idempotent [of demoActor 10 twoSectionsRequest demoDb]
  have "\<exists>sk2 er2. b2 = Assigned 20 ''Jane'' [] (orUndefined sk2) (Some (''Grade 1'', ''A'')) er2 \<and>
          (\<forall>c\<in>set ?cr. \<exists>s\<in>set sk2. sk_grade s = ci_grade c \<and> sk_section s = ci_section c \<and>
                     sk_subject s = ci_subject c)"
    and "st2 = 201"
    and "d2\<lparr>auditLogs := auditLogs (snd ?run1)\<rparr> = snd ?run1"
    by (subst (asm) first, simp add: second)+
  then show ?thesis using one two by (auto simp: second)
qed

subsection \<open>A deactivated subject of the section\<close>

text \<open>
  When the section has a row for the subject name but no active one, the loop body ends
  in the unique index violation, whatever the tutor.
\<close>

lemma assignSubject_deactivated:
  assumes "find (\<lambda>x. ss_sectionId x = s_id sec \<and> ss_name x = nm \<and> ss_isActive x) (sectionSubjects d) = None"
    and "list_ex (\<lambda>x. ss_sectionId x = s_id sec \<and> ss_name x = nm) (sectionSubjects d)"
    and "list_ex (\<lambda>x. s_id x = s_id sec) (sections d)"
  shows "assignSubject t sec g s nm (d, acc) = Inl P2002"
  using assms by (simp add: assignSubject_def sectionSubject_create_def)

text \<open>The handler that adds one subject to a section reactivates such a row instead.\<close>

lemma addSubjectToSection_reactivates:
  "fst (addSubjectToSection 40 (Some ''Art'') demoDb) =
     (200, SubjectRow \<lparr>ss_id = 52, ss_name = ''Art'', ss_sectionId = 40, ss_isActive = True\<rparr>)"
  by code_simp

text \<open>
  Claim C3, at an input where the handler does not do what the claim says. Section A of
  Grade 1 has the subject Art, deactivated. Assigning Jane to Art in Grade 1-A looks for
  an active subject row, finds none and inserts one; the unique index on section and name
  rejects the insert, the transaction is rolled back, and the response is 409 with no
  subject found or created and no assignment made.
\<close>

theorem smartAssignTutor_inactive_subject:
  "smartAssignTutor demoActor 10 artRequest demoDb =
     ((409, Message ''This tutor is already assigned to one or more of these subjects''), demoDb)"
  by code_simp



section \<open>Properties of the tutor controller\<close>

subsection \<open>createTutor\<close>

lemma find_None_iff_list_ex: "(find P xs = None) = (\<not> list_ex P xs)"
  by (induction xs) auto

lemma createTutor_taken:
  assumes "tr_email req = Some email" and "emailTaken email d"
  shows "snd (createTutor who sch req pw h d) = d"
  using assms
  by (auto simp: createTutor_def emailTaken_def find_None_iff_list_ex split: option.splits)

lemma createTutorTransaction_fresh:
  assumes "list_ex (\<lambda>s. sch_id s = sch) (schools d)" and "\<not> emailTaken email d"
  shows "createTutorTransaction name email phone sch h d =
     (if list_ex (\<lambda>u. u_tutorId u = Some (nextId d)) (users d) then Inl P2002
      else Inr (d\<lparr>tutors := tutors d @ [newTutor name email phone sch d],
                  users := users d @ [newTeacher name email phone sch h d],
                  nextId := Suc (Suc (nextId d))\<rparr>,
                newTutor name email phone sch d, newTeacher name email phone sch h d))"
  using assms
  by (simp add: createTutorTransaction_def tutor_create_def user_create_def emailTaken_def
      newTutor_def newTeacher_def Let_def)

text \<open>
  Claim C5, as the code has it. A request whose e-mail address is taken never changes the
  store. The handler answers in this order: 400 when name, e-mail or phone is missing or
  empty; with the three fields given, 404 when the school does not exist; then 409 when a
  tutor row has the address, and 409 when a user row has it. So the answer to a taken
  address is 409 only if the fields are given and the school exists, and the answers 400
  and 404 do not depend on the address being taken. With the fields given, the school
  there and the address free, the tutor row and the linked TEACHER user row are inserted
  in one transaction: the answer is 201 and both rows are there, or the transaction fails
  and neither is.
\<close>

theorem createTutor_duplicate_email:
  "(tr_email req = Some email \<and> emailTaken email d \<longrightarrow> snd (createTutor who sch req pw h d) = d) \<and>
   (missing (tr_name req) \<or> missing (tr_email req) \<or> missing (tr_phone req) \<longrightarrow>
      createTutor who sch req pw h d =
        ((400, TutorMessage ''Missing required fields: name, email, phone''), d)) \<and>
   (tr_name req = Some name \<and> name \<noteq> [] \<and> tr_email req = Some email \<and> email \<noteq> [] \<and>
    tr_phone req = Some phone \<and> phone \<noteq> [] \<longrightarrow>
      (if \<not> list_ex (\<lambda>s. sch_id s = sch) (schools d)
       then createTutor who sch req pw h d = ((404, TutorMessage ''School not found''), d)
       else if list_ex (\<lambda>t. t_email t = email) (tutors d)
       then createTutor who sch req pw h d = ((409, TutorMessage ''Tutor email already exists''), d)
       else if list_ex (\<lambda>u. u_email u = email) (users d)
       then createTutor who sch req pw h d = ((409, TutorMessage ''User email already exists''), d)
       else if list_ex (\<lambda>u. u_tutorId u = Some (nextId d)) (users d)
       then createTutor who sch req pw h d = ((500, TutorMessage ''Failed to create tutor''), d)
       else createTutor who sch req pw h d =
              ((201, TutorCreated (nextId d) name email phone pw),
               logAudit who ''CREATE_TUTOR'' ''Tutor'' (nextId d)
                 (d\<lparr>tutors := tutors d @ [newTutor name email phone sch d],
                    users := users d @ [newTeacher name email phone sch h d],
                    nextId := Suc (Suc (nextId d))\<rparr>))))"
proof (intro conjI impI)
  assume "tr_email req = Some email \<and> emailTaken email d"
  then show "snd (createTutor who sch req pw h d) = d"
    using createTutor_taken by blast
next
  assume "missing (tr_name req) \<or> missing (tr_email req) \<or> missing (tr_phone req)"
  then show "createTutor who sch req pw h d =
        ((400, TutorMessage ''Missing required fields: name, email, phone''), d)"
    by (auto simp: missing_def createTutor_def split: option.splits)
next
  assume a: "tr_name req = Some name \<and> name \<noteq> [] \<and> tr_email req = Some email \<and> email \<noteq> [] \<and>
    tr_phone req = Some phone \<and> phone \<noteq> []"
  let ?run = "createTutor who sch req pw h d"
  show "if \<not> list_ex (\<lambda>s. sch_id s = sch) (schools d)
       then ?run = ((404, TutorMessage ''School not found''), d)
       else if list_ex (\<lambda>t. t_email t = email) (tutors d)
       then ?run = ((409, TutorMessage ''Tutor email already exists''), d)
       else if list_ex (\<lambda>u. u_email u = email) (users d)
       then ?run = ((409, TutorMessage ''User email already exists''), d)
       else if list_ex (\<lambda>u. u_tutorId u = Some (nextId d)) (users d)
       then ?run = ((500, TutorMessage ''Failed to create tutor''), d)
       else ?run =
              ((201, TutorCreated (nextId d) name email phone pw),
               logAudit who ''CREATE_TUTOR'' ''Tutor'' (nextId d)
                 (d\<lparr>tutors := tutors d @ [newTutor name email phone sch d],
                    users := users d @ [newTeacher name email phone sch h d],
                    nextId := Suc (Suc (nextId d))\<rparr>))"
  proof (cases "list_ex (\<lambda>s. sch_id s = sch) (schools d)")
    case False
    then show ?thesis using a by (simp add: createTutor_def find_None_iff_list_ex)
  next
    case sch: True
    then have fs: "find (\<lambda>s. sch_id s = sch) (schools d) \<noteq> None"
      by (simp add: find_None_iff_list_ex)
    show ?thesis
    proof (cases "emailTaken email d")
      case True
      then show ?thesis using a sch fs
        by (auto simp: createTutor_def emailTaken_def find_None_iff_list_ex)
    next
      case False
      have nt: "find (\<lambda>t. t_email t = email) (tutors d) = None"
        and nu: "find (\<lambda>u. u_email u = email) (users d) = None"
        using False by (simp_all add: emailTaken_def find_None_iff_list_ex)
      from False have nt': "\<not> list_ex (\<lambda>t. t_email t = email) (tutors d)"
        and nu': "\<not> list_ex (\<lambda>u. u_email u = email) (users d)"
        by (simp_all add: emailTaken_def)
      show ?thesis
        using a sch nt' nu'
        by (simp add: createTutor_def nt nu fs createTutorTransaction_fresh [OF sch False] newTutor_def)
    qed
  qed
qed

text \<open>
  The claim as stated does not hold: a request with all three fields and a taken address,
  sent for a school that does not exist, is answered 404, not 409.
\<close>

theorem createTutor_duplicate_email_counterexample:
  "emailTaken ''jane@lincoln.example'' demoDb \<and>
   createTutor demoActor 11 (tutorRequestOf ''Ann'' ''jane@lincoln.example'' (Some ''555-0102''))
       ''pw'' ''hash'' demoDb =
     ((404, TutorMessage ''School not found''), demoDb)"
  by (simp add: emailTaken_def demoDb_def createTutor_def tutorRequestOf_def)

theorem createTutor_duplicate_email_witness:
  "createTutor demoActor 10 (tutorRequestOf ''Ann'' ''jane@lincoln.example'' None) ''pw'' ''hash'' demoDb =
     ((400, TutorMessage ''Missing required fields: name, email, phone''), demoDb) \<and>
   createTutor demoActor 11 (tutorRequestOf ''Ann'' ''ann@lincoln.example'' (Some ''555-0102''))
       ''pw'' ''hash'' demoDb =
     ((404, TutorMessage ''School not found''), demoDb) \<and>
   createTutor demoActor 10 (tutorRequestOf ''Ann'' ''jane@lincoln.example'' (Some ''555-0102''))
       ''pw'' ''hash'' demoDb =
     ((409, TutorMessage ''Tutor email already exists''), demoDb) \<and>
   createTutor demoActor 10 (tutorRequestOf ''Ann'' ''admin@lincoln.example'' (Some ''555-0102''))
       ''pw'' ''hash'' demoDb =
     ((409, TutorMessage ''User email already exists''), demoDb) \<and>
   fst (createTutor demoActor 10 (tutorRequestOf ''Ann'' ''ann@lincoln.example'' (Some ''555-0102''))
       ''pw'' ''hash'' demoDb) =
     (201, TutorCreated 100 ''Ann'' ''ann@lincoln.example'' ''555-0102'' ''pw'') \<and>
   map t_name (tutors (snd (createTutor demoActor 10
       (tutorRequestOf ''Ann'' ''ann@lincoln.example'' (Some ''555-0102'')) ''pw'' ''hash'' demoDb))) =
     [''Jane'', ''Omar'', ''Ann''] \<and>
   map u_tutorId (users (snd (createTutor demoActor 10
       (tutorRequestOf ''Ann'' ''ann@lincoln.example'' (Some ''555-0102'')) ''pw'' ''hash'' demoDb))) =
     [None, Some 20, Some 22, Some 100]"
proof -
  let ?req = "\<lambda>e. tutorRequestOf ''Ann'' e (Some ''555-0102'')"
  have sch: "list_ex (\<lambda>s. sch_id s = 10) (schools demoDb)" by (simp add: demoDb_def)
  have nosch: "\<not> list_ex (\<lambda>s. sch_id s = 11) (schools demoDb)" by (simp add: demoDb_def)
  have jane: "list_ex (\<lambda>t. t_email t = ''jane@lincoln.example'') (tutors demoDb)"
    by (simp add: demoDb_def)
  have admin: "\<not> list_ex (\<lambda>t. t_email t = ''admin@lincoln.example'') (tutors demoDb)"
    "list_ex (\<lambda>u. u_email u = ''admin@lincoln.example'') (users demoDb)"
    by (simp_all add: demoDb_def)
  have ann: "\<not> list_ex (\<lambda>t. t_email t = ''ann@lincoln.example'') (tutors demoDb)"
    "\<not> list_ex (\<lambda>u. u_email u = ''ann@lincoln.example'') (users demoDb)"
    by (simp_all add: demoDb_def)
  have nid: "\<not> list_ex (\<lambda>u. u_tutorId u = Some (nextId demoDb)) (users demoDb)" by (simp add: demoDb_def)
  have n: "nextId demoDb = 100" by (simp add: demoDb_def)
  have nophone: "missing (tr_phone (tutorRequestOf ''Ann'' ''jane@lincoln.example'' None))"
    by (simp add: missing_def tutorRequestOf_def)
  from createTutor_duplicate_email [of "tutorRequestOf ''Ann'' ''jane@lincoln.example'' None"
      "''jane@lincoln.example''" demoDb demoActor 10 "''pw''" "''hash''" "''Ann''" "''555-0102''"]
  have a: "createTutor demoActor 10 (tutorRequestOf ''Ann'' ''jane@lincoln.example'' None) ''pw'' ''hash'' demoDb =
     ((400, TutorMessage ''Missing required fields: name, email, phone''), demoDb)"
    using nophone by blast
  from createTutor_duplicate_email [of "?req ''ann@lincoln.example''"
      "''ann@lincoln.example''" demoDb demoActor 11 "''pw''" "''hash''" "''Ann''" "''555-0102''"]
  have b: "createTutor demoActor 11 (?req ''ann@lincoln.example'') ''pw'' ''hash'' demoDb =
     ((404, TutorMessage ''School not found''), demoDb)"
    using nosch by (simp add: tutorRequestOf_def)
  from createTutor_duplicate_email [of "?req ''jane@lincoln.example''"
      "''jane@lincoln.example''" demoDb demoActor 10 "''pw''" "''hash''" "''Ann''" "''555-0102''"]
  have c: "createTutor demoActor 10 (?req ''jane@lincoln.example'') ''pw'' ''hash'' demoDb =
     ((409, TutorMessage ''Tutor email already exists''), demoDb)"
    using sch jane by (simp add: tutorRequestOf_def)
  from createTutor_duplicate_email [of "?req ''admin@lincoln.example''"
      "''admin@lincoln.example''" demoDb demoActor 10 "''pw''" "''hash''" "''Ann''" "''555-0102''"]
  have e: "createTutor demoActor 10 (?req ''admin@lincoln.example'') ''pw'' ''hash'' demoDb =
     ((409, TutorMessage ''User email already exists''), demoDb)"
    using sch admin by (simp add: tutorRequestOf_def)
  from createTutor_duplicate_email [of "?req ''ann@lincoln.example''"
      "''ann@lincoln.example''" demoDb demoActor 10 "''pw''" "''hash''" "''Ann''" "''555-0102''"]
  have f: "createTutor demoActor 10 (?req ''ann@lincoln.example'') ''pw'' ''hash'' demoDb =
     ((201, TutorCreated 100 ''Ann'' ''ann@lincoln.example'' ''555-0102'' ''pw''),
       logAudit demoActor ''CREATE_TUTOR'' ''Tutor'' 100
         (demoDb\<lparr>tutors := tutors demoDb @ [newTutor ''Ann'' ''ann@lincoln.example'' ''555-0102'' 10 demoDb],
            users := users demoDb @ [newTeacher ''Ann'' ''ann@lincoln.example'' ''555-0102'' 10 ''hash'' demoDb],
            nextId := 102\<rparr>))"
    using sch ann nid by (simp add: tutorRequestOf_def n)
  show ?thesis
    unfolding a b c e f by (simp add: logAudit_def newTutor_def newTeacher_def demoDb_def)
qed

subsection \<open>deleteTutor\<close>

lemma find_Some_list_ex_id: "find P xs = Some x \<Longrightarrow> list_ex P xs"
  by (induction xs) (auto split: if_splits)

lemma list_ex_filter_length: "list_ex P xs \<Longrightarrow> 0 < length (filter P xs)"
  by (induction xs) auto

text \<open>
  Claim C6. For a tutor that exists: without \<open>force=true\<close>, if the tutor has an active
  assignment or is class tutor of a section, the answer is 400 and the store is unchanged.
  With \<open>force=true\<close> the answer is 200, the tutor row is gone and with it, by the foreign
  keys, its assignment rows and user account; sections it was class tutor of have none.
\<close>

theorem deleteTutor_guard:
  assumes "find (\<lambda>t. t_id t = tutorId) (tutors d) = Some tutor"
  shows "((list_ex (\<lambda>a. a_tutorId a = tutorId \<and> a_isActive a) (assignments d) \<or>
           list_ex (\<lambda>s. s_classTutorId s = Some tutorId) (sections d)) \<and> force \<noteq> Some ''true'' \<longrightarrow>
            (\<exists>n m. deleteTutor who tutorId force d = ((400, HasAssignments n m), d))) \<and>
         (\<exists>d1. deleteTutor who tutorId (Some ''true'') d =
                  ((200, DeleteMessage ''Tutor deleted successfully''),
                   logAudit who ''DELETE_TUTOR'' ''Tutor'' tutorId d1) \<and>
               tutors d1 = filter (\<lambda>t. t_id t \<noteq> tutorId) (tutors d) \<and>
               assignments d1 = filter (\<lambda>a. a_tutorId a \<noteq> tutorId) (assignments d) \<and>
               users d1 = filter (\<lambda>u. u_tutorId u \<noteq> Some tutorId) (users d) \<and>
               sections d1 = map (\<lambda>s. if s_classTutorId s = Some tutorId
                                       then s\<lparr>s_classTutorId := None\<rparr> else s) (sections d) \<and>
               grades d1 = grades d \<and> sectionSubjects d1 = sectionSubjects d \<and> schools d1 = schools d)"
proof (intro conjI impI)
  assume a: "(list_ex (\<lambda>a. a_tutorId a = tutorId \<and> a_isActive a) (assignments d) \<or>
           list_ex (\<lambda>s. s_classTutorId s = Some tutorId) (sections d)) \<and> force \<noteq> Some ''true''"
  have "list_ex (\<lambda>a. a_tutorId a = tutorId \<and> a_isActive a) (assignments d) \<Longrightarrow>
        list_ex (\<lambda>a. a_tutorId a = tutorId) (assignments d)"
    by (auto simp: list_ex_iff)
  with a have "0 < length (filter (\<lambda>a. a_tutorId a = tutorId) (assignments d)) \<or>
        0 < length (filter (\<lambda>s. s_classTutorId s = Some tutorId) (sections d))"
    using list_ex_filter_length [of "\<lambda>a. a_tutorId a = tutorId" "assignments d"]
      list_ex_filter_length [of "\<lambda>s. s_classTutorId s = Some tutorId" "sections d"]
    by blast
  with a show "\<exists>n m. deleteTutor who tutorId force d = ((400, HasAssignments n m), d)"
    by (auto simp: deleteTutor_def assms Let_def)
next
  have ex: "list_ex (\<lambda>t. t_id t = tutorId) (tutors d)"
    using find_Some_list_ex_id [OF assms] .
  show "\<exists>d1. deleteTutor who tutorId (Some ''true'') d =
                  ((200, DeleteMessage ''Tutor deleted successfully''),
                   logAudit who ''DELETE_TUTOR'' ''Tutor'' tutorId d1) \<and>
               tutors d1 = filter (\<lambda>t. t_id t \<noteq> tutorId) (tutors d) \<and>
               assignments d1 = filter (\<lambda>a. a_tutorId a \<noteq> tutorId) (assignments d) \<and>
               users d1 = filter (\<lambda>u. u_tutorId u \<noteq> Some tutorId) (users d) \<and>
               sections d1 = map (\<lambda>s. if s_classTutorId s = Some tutorId
                                       then s\<lparr>s_classTutorId := None\<rparr> else s) (sections d) \<and>
               grades d1 = grades d \<and> sectionSubjects d1 = sectionSubjects d \<and> schools d1 = schools d"
    by (rule exI [of _ "d\<lparr>tutors := filter (\<lambda>t. t_id t \<noteq> tutorId) (tutors d),
                  assignments := filter (\<lambda>a. a_tutorId a \<noteq> tutorId) (assignments d),
                  users := filter (\<lambda>u. u_tutorId u \<noteq> Some tutorId) (users d),
                  sections := map (\<lambda>s. if s_classTutorId s = Some tutorId
                                         then s\<lparr>s_classTutorId := None\<rparr> else s) (sections d)\<rparr>"])
      (simp add: deleteTutor_def assms Let_def tutor_delete_def ex)
qed

theorem deleteTutor_guard_witness:
  "deleteTutor demoActor 22 None demoDb = ((400, HasAssignments 0 1), demoDb) \<and>
   fst (deleteTutor demoActor 20 (Some ''true'') demoDb) = (200, DeleteMessage ''Tutor deleted successfully'') \<and>
   map t_name (tutors (snd (deleteTutor demoActor 20 (Some ''true'') demoDb))) = [''Omar''] \<and>
   assignments (snd (deleteTutor demoActor 20 (Some ''true'') demoDb)) = []"
proof -
  let ?omar = "\<lparr>t_id = 22, t_name = ''Omar'', t_email = ''omar@lincoln.example'', t_phone = ''555-0101'',
                 t_schoolId = 10, t_isActive = True\<rparr>"
  let ?jane = "\<lparr>t_id = 20, t_name = ''Jane'', t_email = ''jane@lincoln.example'', t_phone = ''555-0100'',
                 t_schoolId = 10, t_isActive = True\<rparr>"
  have o: "find (\<lambda>t. t_id t = 22) (tutors demoDb) = Some ?omar" by (simp add: demoDb_def)
  have j: "find (\<lambda>t. t_id t = 20) (tutors demoDb) = Some ?jane" by (simp add: demoDb_def)
  have c: "list_ex (\<lambda>s. s_classTutorId s = Some 22) (sections demoDb)" by (simp add: demoDb_def)
  have n: "fst (deleteTutor demoActor 22 None demoDb) = (400, HasAssignments 0 1)"
    by (simp add: deleteTutor_def demoDb_def Let_def)
  from deleteTutor_guard [OF o, of None demoActor] c n
  have a: "deleteTutor demoActor 22 None demoDb = ((400, HasAssignments 0 1), demoDb)"
    by auto
  from deleteTutor_guard [OF j, of None demoActor] obtain d1 where
    "deleteTutor demoActor 20 (Some ''true'') demoDb =
       ((200, DeleteMessage ''Tutor deleted successfully''),
        logAudit demoActor ''DELETE_TUTOR'' ''Tutor'' 20 d1)"
    and "tutors d1 = filter (\<lambda>t. t_id t \<noteq> 20) (tutors demoDb)"
    and "assignments d1 = filter (\<lambda>a. a_tutorId a \<noteq> 20) (assignments demoDb)"
    by blast
  then have b: "fst (deleteTutor demoActor 20 (Some ''true'') demoDb) = (200, DeleteMessage ''Tutor deleted successfully'')"
    "map t_name (tutors (snd (deleteTutor demoActor 20 (Some ''true'') demoDb))) = [''Omar'']"
    "assignments (snd (deleteTutor demoActor 20 (Some ''true'') demoDb)) = []"
    by (simp_all add: logAudit_def demoDb_def)
  from a b show ?thesis by simp
qed

section \<open>Properties of the grade controller\<close>

subsection \<open>The order of a new grade\<close>

lemma grade_create_order: "grade_create name sch ord d = Inr (d1, g) \<Longrightarrow> g_order g = ord"
  by (auto simp: grade_create_def Let_def split: if_splits)

lemma createGradeTransaction_order:
  "createGradeTransaction name sch ord secs d = Inr (d1, g, created) \<Longrightarrow> g_order g = ord"
  by (auto simp: createGradeTransaction_def split: sum.splits dest: grade_create_order)

text \<open>The current handler: the order of a grade created without one is the count plus one.\<close>

lemma createGrade_order:
  assumes "gr_order req = None" and "createGrade who sch req d = ((201, GradeCreated g created), d1)"
  shows "g_order g = int (length (filter (\<lambda>x. g_schoolId x = sch) (grades d))) + 1"
  using assms
  by (auto simp: createGrade_def Let_def nextGradeOrder_def split: option.splits if_splits sum.splits
      dest: createGradeTransaction_order)

lemma maxGradeOrder_Max:
  "maxGradeOrder sch d =
     (if filter (\<lambda>g. g_schoolId g = sch) (grades d) = [] then None
      else Some (Max (g_order ` {g \<in> set (grades d). g_schoolId g = sch})))"
proof (cases "map g_order (filter (\<lambda>g. g_schoolId g = sch) (grades d))")
  case Nil
  then show ?thesis by (simp add: maxGradeOrder_def)
next
  case (Cons x xs)
  have "Max (set (x # xs)) = fold max xs x" by (rule Max.set_eq_fold)
  moreover have "set (x # xs) = g_order ` {g \<in> set (grades d). g_schoolId g = sch}"
    using Cons [symmetric] by auto
  ultimately show ?thesis using Cons by (auto simp: maxGradeOrder_def)
qed

text \<open>The earlier handler: the largest order plus one, and one for a school without grades.\<close>

lemma createGrade_earlier_order:
  assumes "gr_order req = None"
    and "createGrade_earlier who sch req d = ((201, GradeCreated g created), d1)"
  shows "g_order g =
     (if filter (\<lambda>x. g_schoolId x = sch) (grades d) = [] then 1
      else Max (g_order ` {x \<in> set (grades d). g_schoolId x = sch}) + 1)"
  using assms
  by (auto simp: createGrade_earlier_def Let_def nextGradeOrder_max_def maxGradeOrder_Max
      split: option.splits if_splits sum.splits dest: createGradeTransaction_order)

text \<open>
  Claim C8, at an input where the current handler does not do what the claim says. The
  school has two grades, of orders 1 and 3; the largest order is 3. A grade created
  without an order gets order 3, the number of grades plus one, not 4.
\<close>

theorem createGrade_order_by_count:
  "maxGradeOrder 10 gapDb = Some 3 \<and>
   fst (createGrade demoActor 10 grade4Request gapDb) =
     (201, GradeCreated
        \<lparr>g_id = 100, g_name = ''Grade 4'', g_schoolId = 10, g_order = 3, g_isActive = True\<rparr>
        [(\<lparr>s_id = 101, s_name = ''A'', s_gradeId = 100, s_classTutorId = None, s_isActive = True\<rparr>, [])])"
  by code_simp

text \<open>The earlier handler gives the new grade order 4 on the same input.\<close>

lemma createGrade_earlier_example:
  "fst (createGrade_earlier demoActor 10 grade4Request gapDb) =
     (201, GradeCreated
        \<lparr>g_id = 100, g_name = ''Grade 4'', g_schoolId = 10, g_order = 4, g_isActive = True\<rparr>
        [(\<lparr>s_id = 101, s_name = ''A'', s_gradeId = 100, s_classTutorId = None, s_isActive = True\<rparr>, [])])"
  by code_simp

subsection \<open>Reactivating a subject of a section\<close>

lemma frame_refl: "frame d d"
  by (simp add: frame_def)

lemma frame_trans: "frame d d' \<Longrightarrow> frame d' d'' \<Longrightarrow> frame d d''"
  by (auto simp: frame_def)

lemma sectionSubject_setActive_True:
  "list_ex (\<lambda>x. ss_id x = i) (sectionSubjects d) \<Longrightarrow>
   sectionSubject_setActive i True d = Inr (d\<lparr>sectionSubjects := map (activate i) (sectionSubjects d)\<rparr>)"
  by (simp add: sectionSubject_setActive_def activate_def)

lemma ids_activate: "ss_id ` set (map (activate i) xs) = ss_id ` set xs"
proof -
  have "map ss_id (map (activate i) xs) = map ss_id xs"
    by (induction xs) (auto simp: activate_def)
  then have "set (map ss_id (map (activate i) xs)) = set (map ss_id xs)" by simp
  then show ?thesis by (simp only: set_map)
qed

lemma rowsOf_activate:
  "rowsOf sid m (d\<lparr>sectionSubjects := map (activate i) (sectionSubjects d)\<rparr>) = map (activate i) (rowsOf sid m d)"
  by (simp add: rowsOf_def filter_map comp_def activate_def cong: filter_cong)

lemma rowsOf_append:
  "rowsOf sid m (d\<lparr>sectionSubjects := sectionSubjects d @ [row], nextId := k\<rparr>) =
     rowsOf sid m d @ (if ss_sectionId row = sid \<and> ss_name row = m then [row] else [])"
  by (simp add: rowsOf_def)

lemma rowsOf_subset: "set (rowsOf sid m d) \<subseteq> set (sectionSubjects d)"
  by (auto simp: rowsOf_def)

lemma rowsOf_key: "x \<in> set (rowsOf sid m d) \<Longrightarrow> ss_sectionId x = sid \<and> ss_name x = m"
  by (simp add: rowsOf_def)

lemma find_filter: "find (\<lambda>x. K x \<and> R x) xs = find R (filter K xs)"
  by (induction xs) auto

lemma find_inactive_rowsOf:
  "find (\<lambda>x. ss_sectionId x = sid \<and> ss_name x = n \<and> \<not> ss_isActive x) (sectionSubjects d) =
     find (\<lambda>x. \<not> ss_isActive x) (rowsOf sid n d)"
  using find_filter [of "\<lambda>x. ss_sectionId x = sid \<and> ss_name x = n" "\<lambda>x. \<not> ss_isActive x" "sectionSubjects d"]
  by (simp add: rowsOf_def conj_assoc)

lemma find_Some_set: "find P xs = Some x \<Longrightarrow> x \<in> set xs \<and> P x"
  by (induction xs) (auto split: if_splits)

lemma find_None_all: "find P xs = None \<Longrightarrow> list_all (\<lambda>x. \<not> P x) xs"
  by (induction xs) (auto split: if_splits)

text \<open>One pass of the loop that adds names, seen from the table \<open>d0\<close> the handler started on.\<close>

lemma addOrReactivate_step:
  assumes pk: "distinct (map ss_id (sectionSubjects d0))"
    and sec: "list_ex (\<lambda>s. s_id s = sid) (sections d)"
    and same: "rowsOf sid n d = rowsOf sid n d0"
    and inactive: "list_all (\<lambda>x. \<not> ss_isActive x) (rowsOf sid n d0)"
  shows "\<exists>d' row. addOrReactivate sid n (d, acc) = Inr (d', acc @ [row]) \<and> ss_name row = n \<and>
           frame d d' \<and>
           (\<forall>m. m \<noteq> n \<longrightarrow> rowsOf sid m d = rowsOf sid m d0 \<longrightarrow> rowsOf sid m d' = rowsOf sid m d0) \<and>
           (\<forall>m q. m \<noteq> n \<longrightarrow> rowsOf sid m d = [q] \<longrightarrow> ss_isActive q \<longrightarrow> rowsOf sid m d' = [q]) \<and>
           (\<forall>q. rowsOf sid n d0 = [q] \<longrightarrow> rowsOf sid n d' = [q\<lparr>ss_isActive := True\<rparr>])"
proof (cases "find (\<lambda>x. \<not> ss_isActive x) (rowsOf sid n d)")
  case None
  then have "list_all (\<lambda>x. ss_isActive x) (rowsOf sid n d)"
    using find_None_all by fastforce
  with inactive same have empty: "rowsOf sid n d = []"
    by (cases "rowsOf sid n d0") (auto simp: list_all_iff)
  then have free: "\<not> list_ex (\<lambda>x. ss_sectionId x = sid \<and> ss_name x = n) (sectionSubjects d)"
    by (auto simp: rowsOf_def list_ex_iff filter_empty_conv)
  let ?row = "\<lparr>ss_id = nextId d, ss_name = n, ss_sectionId = sid, ss_isActive = True\<rparr>"
  let ?d' = "d\<lparr>sectionSubjects := sectionSubjects d @ [?row], nextId := Suc (nextId d)\<rparr>"
  have run: "addOrReactivate sid n (d, acc) = Inr (?d', acc @ [?row])"
    using None sec free
    by (simp add: addOrReactivate_def find_inactive_rowsOf sectionSubject_create_def Let_def)
  have "frame d ?d'" by (auto simp: frame_def)
  moreover have "\<forall>m. m \<noteq> n \<longrightarrow> rowsOf sid m ?d' = rowsOf sid m d"
    by (simp add: rowsOf_append)
  moreover have "\<forall>q. rowsOf sid n d0 \<noteq> [q]" using empty same by simp
  ultimately show ?thesis using run by auto
next
  case (Some ex)
  from find_Some_set [OF Some] have ex: "ex \<in> set (rowsOf sid n d)" "\<not> ss_isActive ex" by simp_all
  then have ex0: "ex \<in> set (sectionSubjects d0)" "ss_name ex = n"
    using same rowsOf_subset rowsOf_key by fastforce+
  have exd: "list_ex (\<lambda>x. ss_id x = ss_id ex) (sectionSubjects d)"
    using ex(1) rowsOf_subset [of sid n d] by (auto simp: list_ex_iff)
  let ?d' = "d\<lparr>sectionSubjects := map (activate (ss_id ex)) (sectionSubjects d)\<rparr>"
  have run: "addOrReactivate sid n (d, acc) = Inr (?d', acc @ [ex\<lparr>ss_isActive := True\<rparr>])"
    using Some by (simp add: addOrReactivate_def find_inactive_rowsOf sectionSubject_setActive_True [OF exd])
  have fr: "frame d ?d'"
    using ids_activate [of "ss_id ex" "sectionSubjects d"] by (simp add: frame_def)
  have other: "rowsOf sid m ?d' = rowsOf sid m d0" if "m \<noteq> n" and "rowsOf sid m d = rowsOf sid m d0" for m
  proof -
    have "activate (ss_id ex) y = y" if "y \<in> set (rowsOf sid m d0)" for y
    proof -
      from that have "y \<in> set (sectionSubjects d0)" "ss_name y = m"
        using rowsOf_subset rowsOf_key by fastforce+
      with ex0 \<open>m \<noteq> n\<close> have "ss_id y \<noteq> ss_id ex"
        using pk by (auto simp: distinct_map inj_on_def)
      then show ?thesis by (simp add: activate_def)
    qed
    then have "map (activate (ss_id ex)) (rowsOf sid m d0) = rowsOf sid m d0"
      by (simp add: map_idI)
    then show ?thesis using that by (simp add: rowsOf_activate)
  qed
  have active: "rowsOf sid m ?d' = [q]" if "rowsOf sid m d = [q]" and "ss_isActive q" for m q
    using that by (simp add: rowsOf_activate activate_def)
  have target: "rowsOf sid n ?d' = [q\<lparr>ss_isActive := True\<rparr>]" if "rowsOf sid n d0 = [q]" for q
  proof -
    from that same ex(1) have "ex = q" by simp
    then show ?thesis using that same by (simp add: rowsOf_activate activate_def)
  qed
  show ?thesis using run fr other active target ex0 by auto
qed

lemma addOrReactivate_loop:
  assumes pk: "distinct (map ss_id (sectionSubjects d0))"
    and sec: "list_ex (\<lambda>s. s_id s = sid) (sections d)"
    and dist: "distinct names"
    and pre: "\<forall>n\<in>set names. rowsOf sid n d = rowsOf sid n d0 \<and>
                list_all (\<lambda>x. \<not> ss_isActive x) (rowsOf sid n d0)"
  shows "\<exists>d' added. forEach (addOrReactivate sid) names (d, acc) = Inr (d', acc @ added) \<and>
           map ss_name added = names \<and> frame d d' \<and>
           (\<forall>m q. m \<notin> set names \<longrightarrow> rowsOf sid m d = [q] \<longrightarrow> ss_isActive q \<longrightarrow> rowsOf sid m d' = [q]) \<and>
           (\<forall>n q. n \<in> set names \<longrightarrow> rowsOf sid n d0 = [q] \<longrightarrow> rowsOf sid n d' = [q\<lparr>ss_isActive := True\<rparr>])"
  using sec dist pre
proof (induction names arbitrary: d acc)
  case Nil
  show ?case by (intro exI [of _ d] exI [of _ "[]"]) (simp add: frame_refl)
next
  case (Cons n names)
  from Cons.prems have same: "rowsOf sid n d = rowsOf sid n d0"
    and inactive: "list_all (\<lambda>x. \<not> ss_isActive x) (rowsOf sid n d0)"
    and nn: "n \<notin> set names" and dist': "distinct names"
    by simp_all
  from addOrReactivate_step [OF pk Cons.prems(1) same inactive, of acc] obtain d1 row where
    one: "addOrReactivate sid n (d, acc) = Inr (d1, acc @ [row])" and nm: "ss_name row = n"
    and fr1: "frame d d1"
    and other: "\<And>m. m \<noteq> n \<Longrightarrow> rowsOf sid m d = rowsOf sid m d0 \<Longrightarrow> rowsOf sid m d1 = rowsOf sid m d0"
    and active: "\<And>m q. m \<noteq> n \<Longrightarrow> rowsOf sid m d = [q] \<Longrightarrow> ss_isActive q \<Longrightarrow> rowsOf sid m d1 = [q]"
    and target: "\<And>q. rowsOf sid n d0 = [q] \<Longrightarrow> rowsOf sid n d1 = [q\<lparr>ss_isActive := True\<rparr>]"
    by blast
  have sec1: "list_ex (\<lambda>s. s_id s = sid) (sections d1)"
    using Cons.prems(1) fr1 by (simp add: frame_def)
  have pre1: "\<forall>m\<in>set names. rowsOf sid m d1 = rowsOf sid m d0 \<and>
                list_all (\<lambda>x. \<not> ss_isActive x) (rowsOf sid m d0)"
  proof (intro ballI conjI)
    fix m assume m: "m \<in> set names"
    then have "m \<noteq> n" using nn by auto
    moreover from m Cons.prems(3) have "rowsOf sid m d = rowsOf sid m d0" by simp
    ultimately show "rowsOf sid m d1 = rowsOf sid m d0" by (rule other)
    from m Cons.prems(3) show "list_all (\<lambda>x. \<not> ss_isActive x) (rowsOf sid m d0)" by simp
  qed
  from Cons.IH [OF sec1 dist' pre1, of "acc @ [row]"] obtain d' added where
    more: "forEach (addOrReactivate sid) names (d1, acc @ [row]) = Inr (d', (acc @ [row]) @ added)"
    and nms: "map ss_name added = names" and fr2: "frame d1 d'"
    and active2: "\<And>m q. m \<notin> set names \<Longrightarrow> rowsOf sid m d1 = [q] \<Longrightarrow> ss_isActive q \<Longrightarrow> rowsOf sid m d' = [q]"
    and target2: "\<And>m q. m \<in> set names \<Longrightarrow> rowsOf sid m d0 = [q] \<Longrightarrow> rowsOf sid m d' = [q\<lparr>ss_isActive := True\<rparr>]"
    by blast
  have a: "rowsOf sid m d' = [q]" if "m \<notin> set (n # names)" "rowsOf sid m d = [q]" "ss_isActive q" for m q
    using that active [of m q] active2 [of m q] by simp
  have b: "rowsOf sid m d' = [q\<lparr>ss_isActive := True\<rparr>]" if "m \<in> set (n # names)" "rowsOf sid m d0 = [q]" for m q
  proof (cases "m = n")
    case True
    with that target have "rowsOf sid n d1 = [q\<lparr>ss_isActive := True\<rparr>]" by simp
    with active2 [of n "q\<lparr>ss_isActive := True\<rparr>"] nn True show ?thesis by simp
  next
    case False
    with that target2 show ?thesis by simp
  qed
  show ?case
    apply (intro exI [of _ d'] exI [of _ "row # added"])
    using one more nm nms frame_trans [OF fr1 fr2] a b apply simp
    done
qed

lemma list_ex_deactivated:
  "list_ex (\<lambda>x. ss_id x = i) (map (deactivated ids) xs) = list_ex (\<lambda>x. ss_id x = i) xs"
  by (induction xs) (auto simp: deactivated_def)

lemma deactivate_loop:
  assumes "\<forall>s\<in>set ss. list_ex (\<lambda>x. ss_id x = ss_id s) (sectionSubjects d)"
  shows "forEach deactivate ss d =
           Inr (d\<lparr>sectionSubjects := map (deactivated (ss_id ` set ss)) (sectionSubjects d)\<rparr>)"
  using assms
proof (induction ss arbitrary: d)
  case Nil
  then show ?case by (simp add: deactivated_def)
next
  case (Cons s ss)
  let ?d1 = "d\<lparr>sectionSubjects := map (deactivated {ss_id s}) (sectionSubjects d)\<rparr>"
  have one: "deactivate s d = Inr ?d1"
    using Cons.prems by (simp add: deactivate_def sectionSubject_setActive_def deactivated_def)
  have ids: "\<forall>s'\<in>set ss. list_ex (\<lambda>x. ss_id x = ss_id s') (sectionSubjects ?d1)"
    using Cons.prems by (simp add: list_ex_deactivated)
  have "map (deactivated (ss_id ` set ss)) (map (deactivated {ss_id s}) xs) =
        map (deactivated (ss_id ` set (s # ss))) xs" for xs
    by (induction xs) (auto simp: deactivated_def)
  then show ?case using Cons.IH [OF ids] one by simp
qed

lemma rowsOf_deactivated:
  "rowsOf sid m (d\<lparr>sectionSubjects := map (deactivated ids) (sectionSubjects d)\<rparr>) =
     map (deactivated ids) (rowsOf sid m d)"
  by (simp add: rowsOf_def filter_map comp_def deactivated_def cong: filter_cong)

lemma filter_distinct_key:
  "distinct (map f xs) \<Longrightarrow> x \<in> set xs \<Longrightarrow> filter (\<lambda>y. f y = f x) xs = [x]"
proof (induction xs)
  case Nil
  then show ?case by simp
next
  case (Cons y ys)
  show ?case
  proof (cases "y = x")
    case True
    with Cons.prems have "f x \<notin> f ` set ys" by simp
    then have "\<forall>z\<in>set ys. f z \<noteq> f x" by (metis imageI)
    then have "filter (\<lambda>y. f y = f x) ys = []" by (simp add: filter_empty_conv)
    with True show ?thesis by simp
  next
    case False
    with Cons.prems have "x \<in> set ys" "f y \<noteq> f x" by auto
    with Cons show ?thesis by simp
  qed
qed

lemma forEach_invariant:
  assumes "\<And>x s s'. f x s = Inr s' \<Longrightarrow> P s \<Longrightarrow> P s'"
  shows "forEach f xs s = Inr s' \<Longrightarrow> P s \<Longrightarrow> P s'"
  by (induction xs arbitrary: s) (auto split: sum.splits intro: assms)

lemma sectionSubject_setActive_unique:
  assumes "sectionSubject_setActive i b d = Inr d'" and "uniqueSubjects d"
  shows "uniqueSubjects d'"
proof -
  have k: "map (\<lambda>x. (ss_sectionId x, ss_name x))
             (map (\<lambda>x. if ss_id x = i then x\<lparr>ss_isActive := b\<rparr> else x) xs) =
           map (\<lambda>x. (ss_sectionId x, ss_name x)) xs" for xs
    by (induction xs) auto
  from assms(1) have "d' = d\<lparr>sectionSubjects :=
      map (\<lambda>x. if ss_id x = i then x\<lparr>ss_isActive := b\<rparr> else x) (sectionSubjects d)\<rparr>"
    by (auto simp: sectionSubject_setActive_def split: if_splits)
  then show ?thesis using assms(2) by (simp add: uniqueSubjects_def k del: map_map)
qed

lemma sectionSubject_create_unique:
  assumes "sectionSubject_create nm sid d = Inr (d', row)" and "uniqueSubjects d"
  shows "uniqueSubjects d'"
  using assms
  by (auto simp: sectionSubject_create_def uniqueSubjects_def Let_def list_ex_iff split: if_splits; blast)

lemma addOrReactivate_unique:
  assumes "addOrReactivate sid n st = Inr st'" and "uniqueSubjects (fst st)"
  shows "uniqueSubjects (fst st')"
  using assms
  by (cases st)
    (auto simp: addOrReactivate_def split: option.splits sum.splits
      dest: sectionSubject_setActive_unique sectionSubject_create_unique)

lemma updateSectionSubjectsTransaction_unique:
  assumes "updateSectionSubjectsTransaction sid cur names d = Inr (d', added, removed)"
    and "uniqueSubjects d"
  shows "uniqueSubjects d'"
proof -
  from assms(1) obtain d1 where
    l1: "forEach (addOrReactivate sid) (filter (\<lambda>name. name \<notin> set (map ss_name cur)) names) (d, []) =
           Inr (d1, added)"
    and l2: "forEach deactivate (filter (\<lambda>s. ss_name s \<notin> set names) cur) d1 = Inr d'"
    by (auto simp: updateSectionSubjectsTransaction_def Let_def split: sum.splits)
  have "uniqueSubjects (fst (d1, added))"
    by (rule forEach_invariant [where P = "\<lambda>st. uniqueSubjects (fst st)", OF _ l1])
      (auto intro: addOrReactivate_unique assms(2))
  then have "uniqueSubjects d1" by simp
  show ?thesis
    by (rule forEach_invariant [where P = uniqueSubjects, OF _ l2])
      (auto simp: deactivate_def intro: sectionSubject_setActive_unique \<open>uniqueSubjects d1\<close>)
qed

text \<open>
  Where the handler does reactivate. The store satisfies the primary key and the unique
  index of the subject table, the section exists (with its grade), \<open>r\<close> is a deactivated
  subject row of the section, and the desired list holds the name of \<open>r\<close> and repeats no name
  that is not an active subject of the section. Then updateSectionSubjects succeeds,
  reports the name as added, and afterwards the section has exactly one row of that name:
  \<open>r\<close> itself, same id, active again. The unique index still holds.
\<close>

theorem updateSectionSubjects_reactivates:
  assumes pk: "distinct (map ss_id (sectionSubjects d))"
    and uq: "uniqueSubjects d"
    and sec: "find (\<lambda>s. s_id s = sid) (sections d) = Some sec"
    and gr: "list_ex (\<lambda>g. g_id g = s_gradeId sec) (grades d)"
    and row: "r \<in> set (sectionSubjects d)" "ss_sectionId r = sid" "\<not> ss_isActive r"
    and names: "ss_name r \<in> set names"
    and once: "distinct (filter (\<lambda>n. \<not> list_ex (\<lambda>x. ss_sectionId x = sid \<and> ss_name x = n \<and> ss_isActive x)
                                   (sectionSubjects d)) names)"
  shows "\<exists>added removed d1.
           updateSectionSubjects who sid (Some names) d =
             ((200, SubjectsUpdated sid (s_name sec) added removed),
              logAudit who ''UPDATE_SECTION_SUBJECTS'' ''Section'' sid d1) \<and>
           ss_name r \<in> set added \<and>
           rowsOf sid (ss_name r) d1 = [r\<lparr>ss_isActive := True\<rparr>] \<and>
           uniqueSubjects d1"
proof -
  let ?cur = "filter (\<lambda>x. ss_sectionId x = sid \<and> ss_isActive x) (sectionSubjects d)"
  let ?toAdd = "filter (\<lambda>name. name \<notin> set (map ss_name ?cur)) names"
  let ?toDeactivate = "filter (\<lambda>s. ss_name s \<notin> set names) ?cur"
  let ?nm = "ss_name r"
  have cur: "(n \<notin> set (map ss_name ?cur)) =
             (\<not> list_ex (\<lambda>x. ss_sectionId x = sid \<and> ss_name x = n \<and> ss_isActive x) (sectionSubjects d))" for n
    by (auto simp: list_ex_iff)
  have toAdd: "?toAdd = filter (\<lambda>n. \<not> list_ex (\<lambda>x. ss_sectionId x = sid \<and> ss_name x = n \<and> ss_isActive x)
                                   (sectionSubjects d)) names"
    by (simp only: cur)
  have dist: "distinct ?toAdd" using once by (simp only: toAdd)
  have secx: "list_ex (\<lambda>s. s_id s = sid) (sections d)"
    using find_Some_set [OF sec] by (auto simp: list_ex_iff)
  have only: "rowsOf sid ?nm d = [r]"
    using filter_distinct_key [of "\<lambda>x. (ss_sectionId x, ss_name x)" "sectionSubjects d" r] uq row(1,2)
    by (simp add: rowsOf_def uniqueSubjects_def)
  have notcur: "?nm \<notin> set (map ss_name ?cur)"
  proof
    assume "?nm \<in> set (map ss_name ?cur)"
    then obtain x where x: "x \<in> set (sectionSubjects d)" "ss_sectionId x = sid" "ss_isActive x" "ss_name x = ?nm"
      by auto
    then have "x \<in> set (rowsOf sid ?nm d)" by (simp add: rowsOf_def)
    with only have "x = r" by simp
    with x row(3) show False by simp
  qed
  have inAdd: "?nm \<in> set ?toAdd" using names notcur by simp
  have pre: "\<forall>n\<in>set ?toAdd. rowsOf sid n d = rowsOf sid n d \<and>
                list_all (\<lambda>x. \<not> ss_isActive x) (rowsOf sid n d)"
    by (auto simp: rowsOf_def list_all_iff)
  from addOrReactivate_loop [OF pk secx dist pre, of "[]"] obtain d1 added where
    l1: "forEach (addOrReactivate sid) ?toAdd (d, []) = Inr (d1, added)"
    and nms: "map ss_name added = ?toAdd" and fr: "frame d d1"
    and target: "\<And>n q. n \<in> set ?toAdd \<Longrightarrow> rowsOf sid n d = [q] \<Longrightarrow> rowsOf sid n d1 = [q\<lparr>ss_isActive := True\<rparr>]"
    by auto
  have ids: "\<forall>s\<in>set ?toDeactivate. list_ex (\<lambda>x. ss_id x = ss_id s) (sectionSubjects d1)"
    using fr by (auto simp: frame_def list_ex_iff image_iff subset_iff) metis
  let ?d2 = "d1\<lparr>sectionSubjects := map (deactivated (ss_id ` set ?toDeactivate)) (sectionSubjects d1)\<rparr>"
  note l2 = deactivate_loop [OF ids]
  have tx: "updateSectionSubjectsTransaction sid ?cur names d = Inr (?d2, added, ?toDeactivate)"
    unfolding updateSectionSubjectsTransaction_def Let_def l1 sum.case prod.case l2 by (rule refl)
  have notr: "ss_id r \<notin> ss_id ` set ?toDeactivate"
  proof
    assume "ss_id r \<in> ss_id ` set ?toDeactivate"
    then obtain s where s: "s \<in> set (sectionSubjects d)" "ss_isActive s" "ss_id s = ss_id r" by auto
    with pk row(1) have "s = r" by (auto simp: distinct_map inj_on_def)
    with s row(3) show False by simp
  qed
  have final: "rowsOf sid ?nm ?d2 = [r\<lparr>ss_isActive := True\<rparr>]"
    using target [OF inAdd only] notr by (simp add: rowsOf_deactivated deactivated_def)
  have uq2: "uniqueSubjects ?d2"
    by (rule updateSectionSubjectsTransaction_unique [OF tx uq])
  have grade: "find (\<lambda>g. g_id g = s_gradeId sec) (grades d) \<noteq> None"
    using gr by (induction "grades d") (auto simp: find_None_iff list_ex_iff)
  have sidsec: "s_id sec = sid" using find_Some_set [OF sec] by simp
  have run: "updateSectionSubjects who sid (Some names) d =
      ((200, SubjectsUpdated sid (s_name sec) (map ss_name added) (map ss_name ?toDeactivate)),
       logAudit who ''UPDATE_SECTION_SUBJECTS'' ''Section'' sid ?d2)"
    using grade by (simp add: updateSectionSubjects_def sec tx sidsec)
  show ?thesis
    apply (rule exI [of _ "map ss_name added"])
    apply (rule exI [of _ "map ss_name ?toDeactivate"])
    apply (rule exI [of _ ?d2])
    using run final uq2 inAdd nms apply simp
    done
qed

theorem updateSectionSubjects_reactivates_witness:
  "rowsOf 40 ''Maths'' afterRemoval =
     [\<lparr>ss_id = 51, ss_name = ''Maths'', ss_sectionId = 40, ss_isActive = False\<rparr>] \<and>
   fst (updateSectionSubjects demoActor 40 (Some [''English'', ''Maths'']) afterRemoval) =
     (200, SubjectsUpdated 40 ''A'' [''Maths''] []) \<and>
   rowsOf 40 ''Maths'' (snd (updateSectionSubjects demoActor 40 (Some [''English'', ''Maths'']) afterRemoval)) =
     [\<lparr>ss_id = 51, ss_name = ''Maths'', ss_sectionId = 40, ss_isActive = True\<rparr>]"
proof -
  let ?r = "\<lparr>ss_id = 51, ss_name = ''Maths'', ss_sectionId = 40, ss_isActive = False\<rparr>"
  let ?sec = "\<lparr>s_id = 40, s_name = ''A'', s_gradeId = 30, s_classTutorId = None, s_isActive = True\<rparr>"
  have before: "rowsOf 40 ''Maths'' afterRemoval = [?r]" by code_simp
  have pk: "distinct (map ss_id (sectionSubjects afterRemoval))" by code_simp
  have uq: "uniqueSubjects afterRemoval" by code_simp
  have sec: "find (\<lambda>s. s_id s = 40) (sections afterRemoval) = Some ?sec" by code_simp
  have gr: "list_ex (\<lambda>g. g_id g = s_gradeId ?sec) (grades afterRemoval)" by code_simp
  have row: "?r \<in> set (sectionSubjects afterRemoval)" by code_simp
  have once: "distinct (filter (\<lambda>n. \<not> list_ex (\<lambda>x. ss_sectionId x = 40 \<and> ss_name x = n \<and> ss_isActive x)
                                   (sectionSubjects afterRemoval)) [''English'', ''Maths''])"
    by code_simp
  have resp: "fst (updateSectionSubjects demoActor 40 (Some [''English'', ''Maths'']) afterRemoval) =
     (200, SubjectsUpdated 40 ''A'' [''Maths''] [])"
    by code_simp
  from updateSectionSubjects_reactivates [OF pk uq sec gr row _ _ _ once, of demoActor]
  obtain added removed d1 where
    "updateSectionSubjects demoActor 40 (Some [''English'', ''Maths'']) afterRemoval =
       ((200, SubjectsUpdated 40 ''A'' added removed),
        logAudit demoActor ''UPDATE_SECTION_SUBJECTS'' ''Section'' 40 d1)"
    and "rowsOf 40 ''Maths'' d1 = [?r\<lparr>ss_isActive := True\<rparr>]"
    by auto
  then have "rowsOf 40 ''Maths'' (snd (updateSectionSubjects demoActor 40 (Some [''English'', ''Maths'']) afterRemoval)) =
     [\<lparr>ss_id = 51, ss_name = ''Maths'', ss_sectionId = 40, ss_isActive = True\<rparr>]"
    by (simp add: rowsOf_def logAudit_def)
  with before resp show ?thesis by simp
qed

text \<open>
  Claim C4, at an input where the handler does not do what the claim says. Section A holds
  the deactivated subject Art, row 52. A desired list with the name once reactivates that
  row. A desired list with the name twice does not: the second pass of the loop over the
  names to add finds no deactivated row any more and inserts one, the unique index on
  section and name rejects the insert, the transaction is rolled back, and the handler
  answers 500. The store is as before, so Art is still deactivated. addSubjectToSection
  looks the name up among all rows of the section and never inserts a second one.
\<close>

theorem updateSectionSubjects_repeated_name:
  "rowsOf 40 ''Art'' demoDb =
     [\<lparr>ss_id = 52, ss_name = ''Art'', ss_sectionId = 40, ss_isActive = False\<rparr>] \<and>
   updateSectionSubjects demoActor 40 (Some [''Art'', ''Art'']) demoDb =
     ((500, SubjectsMessage ''Failed to update section subjects''), demoDb) \<and>
   fst (updateSectionSubjects demoActor 40 (Some [''Art'']) demoDb) =
     (200, SubjectsUpdated 40 ''A'' [''Art''] [''English'', ''Maths'']) \<and>
   rowsOf 40 ''Art'' (snd (updateSectionSubjects demoActor 40 (Some [''Art'']) demoDb)) =
     [\<lparr>ss_id = 52, ss_name = ''Art'', ss_sectionId = 40, ss_isActive = True\<rparr>]"
  by code_simp


section \<open>One assignment row for a tutor and a subject\<close>

lemma uniqueAssignments_filter:
  "uniqueAssignments d \<Longrightarrow> assignments d' = filter keep (assignments d) \<Longrightarrow> uniqueAssignments d'"
  by (simp add: uniqueAssignments_def distinct_map_filter)

lemma uniqueAssignments_same:
  "assignments d' = assignments d \<Longrightarrow> uniqueAssignments d' = uniqueAssignments d"
  by (simp add: uniqueAssignments_def)

text \<open>The lookup before the insert rules the index violation out.\<close>

lemma create_after_lookup:
  assumes "find (\<lambda>x. a_tutorId x = t \<and> a_sectionSubjectId x = i) (assignments d) = None"
  shows "tutorSubjectAssignment_create t i d \<noteq> Inl P2002"
  using find_None_list_ex [OF assms] by (simp add: tutorSubjectAssignment_create_def Let_def)

lemma tutorSubjectAssignment_create_unique:
  assumes "tutorSubjectAssignment_create t i d = Inr (d', row)" and "uniqueAssignments d"
  shows "uniqueAssignments d'"
  using assms
  by (auto simp: tutorSubjectAssignment_create_def uniqueAssignments_def Let_def list_ex_iff
      split: if_splits; blast)

lemma tutorSubjectAssignment_setActive_unique:
  assumes "tutorSubjectAssignment_setActive i b d = Inr d'" and "uniqueAssignments d"
  shows "uniqueAssignments d'"
proof -
  have k: "map (\<lambda>a. (a_tutorId a, a_sectionSubjectId a))
             (map (\<lambda>x. if a_id x = i then x\<lparr>a_isActive := b\<rparr> else x) xs) =
           map (\<lambda>a. (a_tutorId a, a_sectionSubjectId a)) xs" for xs
    by (induction xs) auto
  from assms(1) have "d' = d\<lparr>assignments :=
      map (\<lambda>x. if a_id x = i then x\<lparr>a_isActive := b\<rparr> else x) (assignments d)\<rparr>"
    by (auto simp: tutorSubjectAssignment_setActive_def split: if_splits)
  then show ?thesis using assms(2) by (simp add: uniqueAssignments_def k del: map_map)
qed

lemma assignSubject_unique:
  assumes "assignSubject t sec g s nm st = Inr st'" and "uniqueAssignments (fst st)"
  shows "uniqueAssignments (fst st')"
proof -
  obtain d acc where st: "st = (d, acc)" by (cases st)
  obtain d' acc' where st': "st' = (d', acc')" by (cases st')
  let ?K = "\<lambda>x. ss_sectionId x = s_id sec \<and> ss_name x = nm \<and> ss_isActive x"
  obtain d1 found where
    step1: "(case find ?K (sectionSubjects d) of Some f \<Rightarrow> Inr (d, f)
             | None \<Rightarrow> sectionSubject_create nm (s_id sec) d) = Inr (d1, found)"
    using assms(1) by (auto simp: assignSubject_def st split: sum.splits)
  then have "assignments d1 = assignments d"
    by (auto split: option.splits dest!: sectionSubject_create_Inr(1))
  then have u1: "uniqueAssignments d1" using assms(2) by (simp add: st uniqueAssignments_def)
  let ?A = "\<lambda>x. a_tutorId x = t \<and> a_sectionSubjectId x = ss_id found"
  have rest: "(case find ?A (assignments d1) of
       Some ex \<Rightarrow>
         (if a_isActive ex
          then Inr (d1, acc\<lparr>skippedAssignments := skippedAssignments acc @ [skipped g s nm]\<rparr>)
          else (case tutorSubjectAssignment_setActive (a_id ex) True d1 of
                  Inl e \<Rightarrow> Inl e
                | Inr d2 \<Rightarrow>
                    Inr (d2, acc\<lparr>createdAssignments := createdAssignments acc @
                           [\<lparr>ci_id = a_id ex, ci_grade = g, ci_section = s, ci_subject = nm,
                             ci_reactivated = True\<rparr>]\<rparr>)))
     | None \<Rightarrow>
         (case tutorSubjectAssignment_create t (ss_id found) d1 of
            Inl e \<Rightarrow> Inl e
          | Inr (d2, assignment) \<Rightarrow>
              Inr (d2, acc\<lparr>createdAssignments := createdAssignments acc @
                     [\<lparr>ci_id = a_id assignment, ci_grade = g, ci_section = s, ci_subject = nm,
                       ci_reactivated = False\<rparr>]\<rparr>))) = Inr (d', acc')"
    using assms(1) step1 by (simp add: assignSubject_def st st')
  have "uniqueAssignments d'"
  proof (cases "find ?A (assignments d1)")
    case None
    with rest obtain row where "tutorSubjectAssignment_create t (ss_id found) d1 = Inr (d', row)"
      by (auto split: sum.splits)
    then show ?thesis using u1 by (rule tutorSubjectAssignment_create_unique)
  next
    case (Some ex)
    show ?thesis
    proof (cases "a_isActive ex")
      case True
      with rest Some have "d' = d1" by simp
      then show ?thesis using u1 by simp
    next
      case False
      with rest Some have "tutorSubjectAssignment_setActive (a_id ex) True d1 = Inr d'"
        by (auto split: sum.splits)
      then show ?thesis using u1 by (rule tutorSubjectAssignment_setActive_unique)
    qed
  qed
  then show ?thesis by (simp add: st')
qed

lemma forEach_unique:
  assumes step: "\<And>x st st'. f x st = Inr st' \<Longrightarrow> uniqueAssignments (fst st) \<Longrightarrow> uniqueAssignments (fst st')"
  shows "forEach f xs st = Inr st' \<Longrightarrow> uniqueAssignments (fst st) \<Longrightarrow> uniqueAssignments (fst st')"
proof (induction xs arbitrary: st)
  case Nil
  then show ?case by simp
next
  case (Cons x xs)
  from Cons.prems(1) obtain st1 where one: "f x st = Inr st1" and more: "forEach f xs st1 = Inr st'"
    by (cases "f x st") auto
  from step [OF one Cons.prems(2)] have "uniqueAssignments (fst st1)" .
  with Cons.IH [OF more] show ?case .
qed

lemma assignEntry_unique:
  assumes "assignEntry sch t e st = Inr st'" and "uniqueAssignments (fst st)"
  shows "uniqueAssignments (fst st')"
proof -
  obtain key nms where e: "e = (key, nms)" by (cases e)
  obtain d acc where st: "st = (d, acc)" by (cases st)
  show ?thesis
  proof (cases "parseKey key")
    case None
    with assms(1) have "fst st' = d" by (auto simp: assignEntry_def e st)
    then show ?thesis using assms(2) by (simp add: st)
  next
    case (Some p)
    obtain g s where p: "p = (g, s)" by (cases p)
    show ?thesis
    proof (cases "findGrade sch g d")
      case None
      with assms(1) Some p have "fst st' = d" by (auto simp: assignEntry_def e st)
      then show ?thesis using assms(2) by (simp add: st)
    next
      case grade: (Some grade)
      show ?thesis
      proof (cases "findSection (g_id grade) s d")
        case None
        with assms(1) Some p grade have "fst st' = d" by (auto simp: assignEntry_def e st)
        then show ?thesis using assms(2) by (simp add: st)
      next
        case sec: (Some sec)
        with assms(1) Some p grade have "forEach (assignSubject t sec g s) nms st = Inr st'"
          by (simp add: assignEntry_def e st)
        then show ?thesis using assms(2)
          by (rule forEach_unique [rotated]) (rule assignSubject_unique)
      qed
    qed
  qed
qed

lemma smartAssignTransaction_unique:
  assumes "smartAssignTransaction sch t req d = Inr (d', res)" and "uniqueAssignments d"
  shows "uniqueAssignments d'"
proof -
  from assms(1) obtain d1 acc ct errs where
    loop: "forEach (assignEntry sch t) (ar_assignments req) (d, emptyAcc) = Inr (d1, acc)"
    and part: "assignClassTutorPart sch t (ar_classGrade req) (ar_classSection req) (d1, errors acc) =
                 Inr (d', ct, errs)"
    unfolding smartAssignTransaction_def
    by (cases "forEach (assignEntry sch t) (ar_assignments req) (d, emptyAcc)")
      (auto split: sum.splits)
  have "uniqueAssignments (fst (d1, acc))"
    using loop by (rule forEach_unique [rotated]) (simp_all add: assms(2) assignEntry_unique)
  moreover from assignClassTutorPart_Inr [OF part] have "assignments d' = assignments d1" by auto
  ultimately show ?thesis by (simp add: uniqueAssignments_def)
qed

lemma smartAssignTutor_unique:
  assumes "uniqueAssignments d"
  shows "uniqueAssignments (snd (smartAssignTutor who sch req d))"
proof (cases "ar_tutorId req")
  case None
  then show ?thesis using assms by (simp add: smartAssignTutor_def)
next
  case (Some t)
  show ?thesis
  proof (cases "find (\<lambda>x. t_id x = t \<and> t_schoolId x = sch) (tutors d)")
    case None
    then show ?thesis using assms Some by (simp add: smartAssignTutor_def)
  next
    case tu: (Some tu)
    show ?thesis
    proof (cases "smartAssignTransaction sch t req d")
      case (Inl e)
      then show ?thesis using assms Some tu by (simp add: smartAssignTutor_def)
    next
      case (Inr p)
      obtain d1 res where p: "p = (d1, res)" by (cases p)
      from smartAssignTransaction_unique [OF Inr [unfolded p] assms]
      show ?thesis using Some tu Inr p
        by (simp add: smartAssignTutor_def logAudit_def uniqueAssignments_def)
    qed
  qed
qed

lemma clearTutorAssignments_unique:
  "uniqueAssignments d \<Longrightarrow> uniqueAssignments (clearTutorAssignments t d)"
  by (simp add: clearTutorAssignments_def uniqueAssignments_def distinct_map_filter)

lemma updateTutorAssignments_unique:
  assumes "uniqueAssignments d"
  shows "uniqueAssignments (snd (updateTutorAssignments who sch req d))"
proof (cases "ar_tutorId req")
  case None
  then show ?thesis using assms by (simp add: updateTutorAssignments_def)
next
  case (Some t)
  show ?thesis
  proof (cases "find (\<lambda>x. t_id x = t \<and> t_schoolId x = sch) (tutors d)")
    case None
    then show ?thesis using assms Some by (simp add: updateTutorAssignments_def)
  next
    case tu: (Some tu)
    then show ?thesis using Some smartAssignTutor_unique [OF clearTutorAssignments_unique [OF assms]]
      by (simp add: updateTutorAssignments_def)
  qed
qed

lemma assignSubjectToTutor_unique:
  assumes u: "uniqueAssignments d"
  shows "uniqueAssignments (snd (assignSubjectToTutor who sch tf sf d))"
proof (cases tf)
  case None
  then show ?thesis using u by (simp add: assignSubjectToTutor_def)
next
  case t: (Some t)
  show ?thesis
  proof (cases sf)
    case None
    then show ?thesis using u t by (simp add: assignSubjectToTutor_def)
  next
    case i: (Some i)
    show ?thesis
    proof (cases "find (\<lambda>x. t_id x = t \<and> t_schoolId x = sch) (tutors d)")
      case None
      then show ?thesis using u t i by (simp add: assignSubjectToTutor_def)
    next
      case tu: (Some tu)
      show ?thesis
      proof (cases "find (\<lambda>x. ss_id x = i) (sectionSubjects d)")
        case None
        then show ?thesis using u t i tu by (simp add: assignSubjectToTutor_def)
      next
        case ss: (Some ss)
        show ?thesis
        proof (cases "find (\<lambda>s. s_id s = ss_sectionId ss) (sections d)")
          case None
          then show ?thesis using u t i tu ss by (simp add: assignSubjectToTutor_def)
        next
          case sec: (Some sec)
          show ?thesis
          proof (cases "find (\<lambda>g. g_id g = s_gradeId sec) (grades d)")
            case None
            then show ?thesis using u t i tu ss sec by (simp add: assignSubjectToTutor_def)
          next
            case gr: (Some gr)
            show ?thesis
            proof (cases "find (\<lambda>x. a_tutorId x = t \<and> a_sectionSubjectId x = i) (assignments d)")
              case None
              show ?thesis
              proof (cases "tutorSubjectAssignment_create t i d")
                case (Inl e)
                then show ?thesis using u t i tu ss sec gr None by (simp add: assignSubjectToTutor_def)
              next
                case (Inr p)
                obtain d1 row where p: "p = (d1, row)" by (cases p)
                from tutorSubjectAssignment_create_unique [OF Inr [unfolded p] u]
                show ?thesis using t i tu ss sec gr None Inr p
                  by (simp add: assignSubjectToTutor_def logAudit_def uniqueAssignments_def)
              qed
            next
              case ex: (Some ex)
              show ?thesis
              proof (cases "a_isActive ex")
                case True
                then show ?thesis using u t i tu ss sec gr ex by (simp add: assignSubjectToTutor_def)
              next
                case False
                show ?thesis
                proof (cases "tutorSubjectAssignment_setActive (a_id ex) True d")
                  case (Inl e)
                  then show ?thesis using u t i tu ss sec gr ex False
                    by (simp add: assignSubjectToTutor_def)
                next
                  case (Inr d1)
                  from tutorSubjectAssignment_setActive_unique [OF Inr u]
                  show ?thesis using t i tu ss sec gr ex False Inr
                    by (simp add: assignSubjectToTutor_def)
                qed
              qed
            qed
          qed
        qed
      qed
    qed
  qed
qed

lemma deleteAllTutorAssignments_unique:
  assumes "uniqueAssignments d"
  shows "uniqueAssignments (snd (deleteAllTutorAssignments who t d))"
  using assms clearTutorAssignments_unique [of d t]
  by (cases "find (\<lambda>x. t_id x = t) (tutors d)")
    (simp_all add: deleteAllTutorAssignments_def logAudit_def uniqueAssignments_def)

lemma removeAssignment_unique:
  assumes "uniqueAssignments d"
  shows "uniqueAssignments (snd (removeAssignment i d))"
  using assms
  by (cases "find (\<lambda>a. a_id a = i) (assignments d)")
    (simp_all add: removeAssignment_def uniqueAssignments_def distinct_map_filter)

lemma deleteTutor_unique:
  assumes "uniqueAssignments d"
  shows "uniqueAssignments (snd (deleteTutor who t force d))"
  using assms
  by (cases "find (\<lambda>x. t_id x = t) (tutors d)")
    (simp_all add: deleteTutor_def tutor_delete_def logAudit_def uniqueAssignments_def Let_def
      distinct_map_filter)

text \<open>
  Claim C10. In every state the handlers can reach from the empty store no two assignment
  rows have the same tutor and the same section subject. The two handlers that insert
  assignment rows look the pair up first, whatever the row's activity, and insert only
  when there is none (lemma \<open>create_after_lookup\<close>: the insert then cannot violate the
  unique index); reactivating and deleting rows keeps the pairs apart.
\<close>

theorem reachable_uniqueAssignments:
  assumes "reachable d"
  shows "uniqueAssignments d"
  using assms
proof (induction rule: reachable.induct)
  case initial
  show ?case by (simp add: uniqueAssignments_def emptyDb_def)
next
  case (smartAssign d who schoolId req)
  then show ?case by (simp add: smartAssignTutor_unique)
next
  case (updateAssignments d who schoolId req)
  then show ?case by (simp add: updateTutorAssignments_unique)
next
  case (assignSubject d who schoolId t i)
  then show ?case by (simp add: assignSubjectToTutor_unique)
next
  case (deleteAll d who t)
  then show ?case by (simp add: deleteAllTutorAssignments_unique)
next
  case (remove d i)
  then show ?case by (simp add: removeAssignment_unique)
next
  case (deleteTutorStep d who t force)
  then show ?case by (simp add: deleteTutor_unique)
next
  case (other d d' keep)
  then show ?case by (blast intro: uniqueAssignments_filter)
qed


theorem reachable_uniqueAssignments_witness:
  "reachable (snd (smartAssignTutor demoActor 10 demoRequest freshDb)) \<and>
   map (\<lambda>a. (a_tutorId a, a_sectionSubjectId a))
     (assignments (snd (smartAssignTutor demoActor 10 demoRequest freshDb))) = [(20, 50), (20, 51)] \<and>
   uniqueAssignments (snd (smartAssignTutor demoActor 10 demoRequest freshDb))"
proof -
  have "assignments freshDb = filter (\<lambda>_. True) (assignments emptyDb)"
    by (simp add: freshDb_def emptyDb_def)
  with reachable.initial have "reachable freshDb" by (rule reachable.other)
  then have r: "reachable (snd (smartAssignTutor demoActor 10 demoRequest freshDb))"
    by (rule reachable.smartAssign)
  have "map (\<lambda>a. (a_tutorId a, a_sectionSubjectId a))
     (assignments (snd (smartAssignTutor demoActor 10 demoRequest freshDb))) = [(20, 50), (20, 51)]"
    by code_simp
  with r reachable_uniqueAssignments [OF r] show ?thesis by simp
qed

section \<open>Replacing the assignments of a tutor\<close>

lemma smartAssignTutor_failed:
  assumes "fst (fst (smartAssignTutor who sch req d)) \<noteq> 201"
  shows "snd (smartAssignTutor who sch req d) = d"
proof -
  obtain st body d1 where run: "smartAssignTutor who sch req d = ((st, body), d1)"
    by (metis surj_pair)
  show ?thesis
  proof (cases body)
    case (Message m)
    with run smartAssignTutor_Message show ?thesis by fastforce
  next
    case (Assigned i n cr sk ct er)
    with run smartAssignTutor_Assigned have "st = 201" by blast
    with assms run show ?thesis by simp
  qed
qed

text \<open>
  Claim C9. For a request that names a tutor of the school, updateTutorAssignments is
  smartAssignTutor run on the store that the first transaction has already committed: the
  store without any assignment row of the tutor and without the tutor as class tutor of
  any section. Whatever the second step answers, it starts from that store. When it
  fails (a status other than 201) the store stays as the first transaction left it, and
  the tutor's former assignments are gone; when it answers 201 with errors for some
  items, only what it created itself is there.
\<close>

theorem updateTutorAssignments_not_atomic:
  assumes "ar_tutorId req = Some t"
    and "find (\<lambda>x. t_id x = t \<and> t_schoolId x = sch) (tutors d) = Some tu"
  shows "updateTutorAssignments who sch req d = smartAssignTutor who sch req (clearTutorAssignments t d) \<and>
         filter (\<lambda>a. a_tutorId a = t) (assignments (clearTutorAssignments t d)) = [] \<and>
         filter (\<lambda>s. s_classTutorId s = Some t) (sections (clearTutorAssignments t d)) = [] \<and>
         (fst (fst (updateTutorAssignments who sch req d)) \<noteq> 201 \<longrightarrow>
            snd (updateTutorAssignments who sch req d) = clearTutorAssignments t d)"
proof -
  have run: "updateTutorAssignments who sch req d = smartAssignTutor who sch req (clearTutorAssignments t d)"
    by (simp add: updateTutorAssignments_def assms)
  have a: "filter (\<lambda>a. a_tutorId a = t) (assignments (clearTutorAssignments t d)) = []"
    by (simp add: clearTutorAssignments_def filter_empty_conv)
  have b: "filter (\<lambda>s. s_classTutorId s = Some t) (sections (clearTutorAssignments t d)) = []"
    by (auto simp: clearTutorAssignments_def filter_empty_conv)
  show ?thesis using run a b smartAssignTutor_failed [of who sch req "clearTutorAssignments t d"] by simp
qed

theorem updateTutorAssignments_not_atomic_witness:
  "map a_isActive (filter (\<lambda>a. a_tutorId a = 20) (assignments assignedDb)) = [True, True] \<and>
   fst (updateTutorAssignments demoActor 10 artRequest assignedDb) =
     (409, Message ''This tutor is already assigned to one or more of these subjects'') \<and>
   snd (updateTutorAssignments demoActor 10 artRequest assignedDb) = clearTutorAssignments 20 assignedDb \<and>
   assignments (snd (updateTutorAssignments demoActor 10 artRequest assignedDb)) = [] \<and>
   fst (updateTutorAssignments demoActor 10 badKeyRequest assignedDb) =
     (201, Assigned 20 ''Jane'' [] None None (Some [invalidKeyMessage ''Grade 1''])) \<and>
   assignments (snd (updateTutorAssignments demoActor 10 badKeyRequest assignedDb)) = []"
proof -
  let ?jane = "\<lparr>t_id = 20, t_name = ''Jane'', t_email = ''jane@lincoln.example'', t_phone = ''555-0100'',
                 t_schoolId = 10, t_isActive = True\<rparr>"
  have t: "ar_tutorId artRequest = Some 20" by (simp add: artRequest_def)
  have tu: "find (\<lambda>x. t_id x = 20 \<and> t_schoolId x = 10) (tutors assignedDb) = Some ?jane"
    by code_simp
  have before: "map a_isActive (filter (\<lambda>a. a_tutorId a = 20) (assignments assignedDb)) = [True, True]"
    by code_simp
  have resp: "fst (updateTutorAssignments demoActor 10 artRequest assignedDb) =
     (409, Message ''This tutor is already assigned to one or more of these subjects'')"
    by code_simp
  have none: "assignments (clearTutorAssignments 20 assignedDb) = []"
    by code_simp
  have bad: "fst (updateTutorAssignments demoActor 10 badKeyRequest assignedDb) =
     (201, Assigned 20 ''Jane'' [] None None (Some [invalidKeyMessage ''Grade 1'']))"
    "assignments (snd (updateTutorAssignments demoActor 10 badKeyRequest assignedDb)) = []"
    by code_simp+
  from updateTutorAssignments_not_atomic [OF t tu, of demoActor]
  have imp: "fst (fst (updateTutorAssignments demoActor 10 artRequest assignedDb)) \<noteq> 201 \<longrightarrow>
      snd (updateTutorAssignments demoActor 10 artRequest assignedDb) = clearTutorAssignments 20 assignedDb"
    by blast
  from resp have "fst (fst (updateTutorAssignments demoActor 10 artRequest assignedDb)) \<noteq> 201"
    by simp
  with imp
  have "snd (updateTutorAssignments demoActor 10 artRequest assignedDb) = clearTutorAssignments 20 assignedDb"
    by blast
  with before resp none bad show ?thesis by simp
qed


end
